theory Spec2Isabelle
  imports Complex_Main "HOL-Library.Char_ord" "HOL-Library.List_Lexorder"
begin

section \<open>Data model\<close>

text \<open>
  Dates are strings in the format YYYY-MM-DD and tickers are strings; SQLite compares
  TEXT columns bytewise and Python compares strings lexicographically, which is the
  lexicographic order on character lists. REAL columns and Python floats are modelled
  as exact rationals; NaN and rounding are outside the model.
\<close>

type_synonym date = string
type_synonym ticker = string
type_synonym prices = "ticker \<rightharpoonup> rat"

datatype error = ZeroDivisionError | KeyError | ValueError | RetryError

type_synonym shares_row = "ticker \<times> date \<times> rat"
type_synonym market_cap_row = "date \<times> ticker \<times> rat \<times> rat \<times> rat"
type_synonym composition_row = "date \<times> ticker \<times> rat"
type_synonym performance_row = "date \<times> rat"

text \<open>The four tables of market\_data.db. A table is the list of its rows in scan order.\<close>

record db =
  quarterly_shares :: "shares_row list"
  market_caps :: "market_cap_row list"
  index_composition :: "composition_row list"
  index_performance :: "performance_row list"

fun shares_pk :: "shares_row \<Rightarrow> ticker \<times> date" where
  "shares_pk (t, rd, s) = (t, rd)"

fun market_caps_pk :: "market_cap_row \<Rightarrow> date \<times> ticker" where
  "market_caps_pk (d, t, s, c, m) = (d, t)"

fun composition_pk :: "composition_row \<Rightarrow> date \<times> ticker" where
  "composition_pk (d, t, q) = (d, t)"

fun performance_pk :: "performance_row \<Rightarrow> date" where
  "performance_pk (d, v) = d"

section \<open>SQL statements used by database.py\<close>

text \<open>
  INSERT OR REPLACE deletes every row that has the primary key of the new row and then
  adds the new row; executemany does so for each row of the batch in turn.
\<close>

definition insert_or_replace :: "('r \<Rightarrow> 'k) \<Rightarrow> 'r \<Rightarrow> 'r list \<Rightarrow> 'r list" where
  "insert_or_replace pk r tbl = filter (\<lambda>x. pk x \<noteq> pk r) tbl @ [r]"

definition executemany :: "('r \<Rightarrow> 'k) \<Rightarrow> 'r list \<Rightarrow> 'r list \<Rightarrow> 'r list" where
  "executemany pk rows tbl = foldl (\<lambda>t r. insert_or_replace pk r t) tbl rows"

text \<open>The aggregate MAX: NULL (here None) over no rows.\<close>

fun sql_max :: "'a::linorder list \<Rightarrow> 'a option" where
  "sql_max [] = None"
| "sql_max (x # xs) = Some (fold max xs x)"

definition store_quarterly_shares :: "shares_row list \<Rightarrow> db \<Rightarrow> db" where
  "store_quarterly_shares data s =
     s\<lparr>quarterly_shares := executemany shares_pk data (quarterly_shares s)\<rparr>"

definition store_market_data :: "market_cap_row list \<Rightarrow> db \<Rightarrow> db" where
  "store_market_data market_data s =
     s\<lparr>market_caps := executemany market_caps_pk market_data (market_caps s)\<rparr>"

text \<open>
  get\_top\_100\_stocks: the rows of the date, ORDER BY market\_cap DESC LIMIT 100, and
  then Python's sorted on the tickers. SQL leaves the order of rows with equal
  market\_cap open; the model takes a stable sort of the scan order.
\<close>

definition get_top_100_stocks :: "date \<Rightarrow> db \<Rightarrow> ticker list" where
  "get_top_100_stocks d s =
     sort (map (\<lambda>(d', t, sh, c, m). t)
       (take 100 (sort_key (\<lambda>(d', t, sh, c, m). - m)
          (filter (\<lambda>(d', t, sh, c, m). d' = d) (market_caps s)))))"

text \<open>SELECT MAX(date) FROM index\_composition WHERE date < ?\<close>

definition max_date_before :: "date \<Rightarrow> composition_row list \<Rightarrow> date option" where
  "max_date_before d tbl = sql_max (map fst (filter (\<lambda>r. fst r < d) tbl))"

text \<open>
  The rows WHERE date = (that maximum); comparing with NULL selects no row.
\<close>

definition rows_of_max_date_before :: "date \<Rightarrow> composition_row list \<Rightarrow> composition_row list" where
  "rows_of_max_date_before d tbl =
     (case max_date_before d tbl of
        None \<Rightarrow> []
      | Some m \<Rightarrow> filter (\<lambda>r. fst r = m) tbl)"

definition get_previous_top_100 :: "date \<Rightarrow> db \<Rightarrow> ticker list" where
  "get_previous_top_100 d s =
     (let results = map (\<lambda>(d', t, q). t) (rows_of_max_date_before d (index_composition s))
      in if results \<noteq> [] then sort results else [])"

definition fetch_recent_composition :: "date \<Rightarrow> db \<Rightarrow> (ticker \<times> rat) list" where
  "fetch_recent_composition d s =
     map (\<lambda>(d', t, q). (t, q)) (rows_of_max_date_before d (index_composition s))"

text \<open>
  fetch\_outstanding\_shares: per ticker, the row with the latest report\_date at or
  before the date (ORDER BY report\_date DESC LIMIT 1, fetchone). The dict returned has
  exactly the given tickers as keys; its values are None or the one-column row.
\<close>

definition fetchone_shares :: "date \<Rightarrow> ticker \<Rightarrow> shares_row list \<Rightarrow> rat option" where
  "fetchone_shares d t tbl =
     (case rev (sort_key (\<lambda>(t', rd, sh). rd)
                 (filter (\<lambda>(t', rd, sh). t' = t \<and> rd \<le> d) tbl)) of
        [] \<Rightarrow> None
      | (t', rd, sh) # _ \<Rightarrow> Some sh)"

definition fetch_outstanding_shares :: "date \<Rightarrow> ticker list \<Rightarrow> db \<Rightarrow> (ticker \<rightharpoonup> rat option)" where
  "fetch_outstanding_shares d tickers s =
     (\<lambda>t. if t \<in> set tickers then Some (fetchone_shares d t (quarterly_shares s)) else None)"

definition store_new_composition :: "composition_row list \<Rightarrow> db \<Rightarrow> db" where
  "store_new_composition data s =
     s\<lparr>index_composition := executemany composition_pk data (index_composition s)\<rparr>"

definition store_index_value :: "date \<Rightarrow> rat \<Rightarrow> db \<Rightarrow> db" where
  "store_index_value d index_value s =
     s\<lparr>index_performance := insert_or_replace performance_pk (d, index_value) (index_performance s)\<rparr>"

section \<open>External collaborators\<close>

text \<open>
  What one call of yf.download for a one-day window gives: the Close row of the frame at
  the run date (None when the frame has no row for that date; tickers without a close
  are left out), and the number of entries of yf.shared.\_ERRORS after the call.
\<close>

type_synonym frame = "(ticker \<times> rat) list option"

record yf_response =
  prices_df :: frame
  shared_errors :: nat

text \<open>
  The world outside: whether the reference ticker has a row for a date, the symbols of
  the Wikipedia table, the quarterly balance sheet of a ticker (None when it lacks the
  column Ordinary Shares Number), and the answer of the price provider to the n-th
  attempt at a chunk.
\<close>

record ext =
  market_open :: "date \<Rightarrow> bool"
  wiki_symbols :: "string list"
  ordinary_shares_number :: "ticker \<Rightarrow> (date \<times> rat) list option"
  yf_download :: "ticker list \<Rightarrow> date \<Rightarrow> nat \<Rightarrow> yf_response"

section \<open>compute\_index100.py\<close>

definition is_trading_day :: "ext \<Rightarrow> date \<Rightarrow> bool" where
  "is_trading_day e d = market_open e d"

definition fetch_sp500_stocks :: "ext \<Rightarrow> ticker list" where
  "fetch_sp500_stocks e =
     map (map (\<lambda>c. if c = CHR ''.'' then CHR ''-'' else c)) (wiki_symbols e)"

definition fetch_quarterly_shares :: "ext \<Rightarrow> ticker \<Rightarrow> shares_row list" where
  "fetch_quarterly_shares e t =
     (case ordinary_shares_number e t of
        Some shares_data \<Rightarrow> map (\<lambda>(rd, sh). (t, rd, sh)) shares_data
      | None \<Rightarrow> [])"

definition fetch_and_store_all_quarterly_shares :: "ext \<Rightarrow> ticker list \<Rightarrow> db \<Rightarrow> db" where
  "fetch_and_store_all_quarterly_shares e tickers s =
     (let ticker_data_list = concat (map (fetch_quarterly_shares e) tickers)
      in if ticker_data_list \<noteq> [] then store_quarterly_shares ticker_data_list s else s)"

text \<open>
  \_yf\_download\_helper under retry(stop\_after\_attempt(10)): an attempt that finds
  yf.shared.\_ERRORS non-empty raises, and is tried again; when the tenth attempt has
  raised too, the decorator raises RetryError. The waiting time has no effect on the
  result.
\<close>

fun yf_download_attempts :: "ext \<Rightarrow> ticker list \<Rightarrow> date \<Rightarrow> nat \<Rightarrow> nat \<Rightarrow> error + frame" where
  "yf_download_attempts e tickers d attempt 0 = Inl RetryError"
| "yf_download_attempts e tickers d attempt (Suc remaining) =
     (let r = yf_download e tickers d attempt
      in if shared_errors r \<noteq> 0
         then yf_download_attempts e tickers d (Suc attempt) remaining
         else Inr (prices_df r))"

definition yf_download_helper :: "ext \<Rightarrow> ticker list \<Rightarrow> date \<Rightarrow> error + frame" where
  "yf_download_helper e tickers d = yf_download_attempts e tickers d 1 10"

text \<open>The chunks tickers[i:i+20] for i in range(0, len(tickers), 20).\<close>

function sub_tickers_list :: "'a list \<Rightarrow> 'a list list" where
  "sub_tickers_list tickers =
     (if tickers = [] then [] else take 20 tickers # sub_tickers_list (drop 20 tickers))"
  by pat_completeness auto
termination
  by (relation "measure length") auto

fun download_chunks :: "ext \<Rightarrow> date \<Rightarrow> ticker list list \<Rightarrow> error + frame list" where
  "download_chunks e d [] = Inr []"
| "download_chunks e d (ticker_list # rest) =
     (case yf_download_helper e ticker_list d of
        Inl err \<Rightarrow> Inl err
      | Inr f \<Rightarrow> (case download_chunks e d rest of
                   Inl err \<Rightarrow> Inl err
                 | Inr fs \<Rightarrow> Inr (f # fs)))"

text \<open>
  pd.concat(axis=1): ValueError on an empty list; the result has a row for the date
  when one of the frames has.
\<close>

definition pd_concat :: "frame list \<Rightarrow> error + frame" where
  "pd_concat fs =
     (if fs = [] then Inl ValueError
      else if list_all (\<lambda>f. f = None) fs then Inr None
      else Inr (Some (concat (map (\<lambda>f. case f of None \<Rightarrow> [] | Some row \<Rightarrow> row) fs))))"

definition yf_downloader :: "ext \<Rightarrow> ticker list \<Rightarrow> date \<Rightarrow> error + frame" where
  "yf_downloader e tickers d =
     (case download_chunks e d (sub_tickers_list tickers) of
        Inl err \<Rightarrow> Inl err
      | Inr prices_df_list \<Rightarrow> pd_concat prices_df_list)"

text \<open>prices.loc[date] raises KeyError when the date is not in the index.\<close>

definition fetch_closing_prices :: "ext \<Rightarrow> ticker list \<Rightarrow> date \<Rightarrow> error + prices" where
  "fetch_closing_prices e tickers d =
     (case yf_downloader e tickers d of
        Inl err \<Rightarrow> Inl err
      | Inr None \<Rightarrow> Inl KeyError
      | Inr (Some row) \<Rightarrow> Inr (map_of (rev row)))"

fun market_data_loop :: "prices \<Rightarrow> (ticker \<rightharpoonup> rat option) \<Rightarrow> date \<Rightarrow> ticker list
    \<Rightarrow> error + market_cap_row list" where
  "market_data_loop prices shares_info d [] = Inr []"
| "market_data_loop prices shares_info d (t # ts) =
     (case shares_info t of
        None \<Rightarrow> Inl KeyError
      | Some fetched \<Rightarrow>
          (case market_data_loop prices shares_info d ts of
             Inl err \<Rightarrow> Inl err
           | Inr rest \<Rightarrow>
               (case (fetched, prices t) of
                  (Some shares_outstanding, Some curr_close) \<Rightarrow>
                    Inr ((d, t, shares_outstanding, curr_close, curr_close * shares_outstanding) # rest)
                | _ \<Rightarrow> Inr rest)))"

definition fetch_market_data :: "prices \<Rightarrow> ticker list \<Rightarrow> date \<Rightarrow> db \<Rightarrow> error + market_cap_row list" where
  "fetch_market_data prices tickers d s =
     market_data_loop prices (fetch_outstanding_shares d tickers s) d tickers"

text \<open>
  rebalance\_index: 1/len raises ZeroDivisionError on the empty list; in the loop
  prices[ticker] raises KeyError and the division by a zero price ZeroDivisionError.
  Nothing is stored unless the loop has finished.
\<close>

fun composition_loop :: "prices \<Rightarrow> date \<Rightarrow> rat \<Rightarrow> rat \<Rightarrow> ticker list \<Rightarrow> error + composition_row list" where
  "composition_loop prices d weight curr_index_value [] = Inr []"
| "composition_loop prices d weight curr_index_value (t # ts) =
     (case prices t of
        None \<Rightarrow> Inl KeyError
      | Some p \<Rightarrow>
          if p = 0 then Inl ZeroDivisionError
          else (case composition_loop prices d weight curr_index_value ts of
                  Inl err \<Rightarrow> Inl err
                | Inr rest \<Rightarrow> Inr ((d, t, (weight * curr_index_value) / p) # rest)))"

definition index_composition_of :: "prices \<Rightarrow> ticker list \<Rightarrow> rat \<Rightarrow> date \<Rightarrow> error + composition_row list" where
  "index_composition_of prices new_top_100 curr_index_value d =
     (if length new_top_100 = 0 then Inl ZeroDivisionError
      else composition_loop prices d (1 / of_nat (length new_top_100)) curr_index_value new_top_100)"

definition rebalance_index :: "prices \<Rightarrow> ticker list \<Rightarrow> rat \<Rightarrow> date \<Rightarrow> db \<Rightarrow> error + db" where
  "rebalance_index prices new_top_100 curr_index_value d s =
     (case index_composition_of prices new_top_100 curr_index_value d of
        Inl err \<Rightarrow> Inl err
      | Inr composition \<Rightarrow> Inr (store_new_composition composition s))"

definition track_composition_changes :: "prices \<Rightarrow> ticker list \<Rightarrow> ticker list \<Rightarrow> rat \<Rightarrow> date \<Rightarrow> db
    \<Rightarrow> error + db" where
  "track_composition_changes prices prev_top_100 new_top_100 curr_index_value d s =
     (let removed_stocks = set prev_top_100 - set new_top_100
      in if removed_stocks \<noteq> {} \<or> length prev_top_100 = 0
         then rebalance_index prices new_top_100 curr_index_value d s
         else Inr s)"

text \<open>The loop curr\_index\_value += prices[ticker]*ticker\_qty.\<close>

fun revalue :: "prices \<Rightarrow> (ticker \<times> rat) list \<Rightarrow> rat \<Rightarrow> error + rat" where
  "revalue prices [] curr_index_value = Inr curr_index_value"
| "revalue prices ((t, ticker_qty) # rest) curr_index_value =
     (case prices t of
        None \<Rightarrow> Inl KeyError
      | Some p \<Rightarrow> revalue prices rest (curr_index_value + p * ticker_qty))"

definition dump_index_value :: "prices \<Rightarrow> ticker list \<Rightarrow> ticker list \<Rightarrow> date \<Rightarrow> db \<Rightarrow> error + rat \<times> db" where
  "dump_index_value prices prev_top_100 new_top_100 d s =
     (let recent_composition = fetch_recent_composition d s
      in case (if recent_composition \<noteq> [] then revalue prices recent_composition 0
               else Inr 10000) of
           Inl err \<Rightarrow> Inl err
         | Inr curr_index_value \<Rightarrow>
             (case track_composition_changes prices prev_top_100 new_top_100 curr_index_value d s of
                Inl err \<Rightarrow> Inl err
              | Inr s' \<Rightarrow> Inr (curr_index_value, store_index_value d curr_index_value s')))"

text \<open>
  compute\_index\_value returns nothing; the result is the exception that ended the run,
  if any, and the database as the run left it (each store commits at once, so what was
  written before an exception stays).
\<close>

definition compute_index_value :: "ext \<Rightarrow> date \<Rightarrow> bool \<Rightarrow> db \<Rightarrow> error option \<times> db" where
  "compute_index_value e d fetch_quarterly_results s =
     (if \<not> is_trading_day e d then (None, s)
      else
        let sp500_tickers = fetch_sp500_stocks e;
            s1 = (if fetch_quarterly_results
                  then fetch_and_store_all_quarterly_shares e sp500_tickers s else s)
        in case fetch_closing_prices e sp500_tickers d of
             Inl err \<Rightarrow> (Some err, s1)
           | Inr prices \<Rightarrow>
               (case fetch_market_data prices sp500_tickers d s1 of
                  Inl err \<Rightarrow> (Some err, s1)
                | Inr market_data \<Rightarrow>
                    (let s2 = store_market_data market_data s1;
                         prev_top_100 = get_previous_top_100 d s2;
                         new_top_100 = get_top_100_stocks d s2
                     in case dump_index_value prices prev_top_100 new_top_100 d s2 of
                          Inl err \<Rightarrow> (Some err, s2)
                        | Inr (index_value, s3) \<Rightarrow> (None, s3))))"

section \<open>Notions of the specification\<close>

text \<open>The PRIMARY KEY constraints of the four tables.\<close>

definition primary_keys :: "db \<Rightarrow> bool" where
  "primary_keys s \<longleftrightarrow>
     distinct (map shares_pk (quarterly_shares s))
     \<and> distinct (map market_caps_pk (market_caps s))
     \<and> distinct (map composition_pk (index_composition s))
     \<and> distinct (map performance_pk (index_performance s))"

text \<open>
  The value of a snapshot at given prices as the specification writes it: the sum of
  quantity times closing price over the rows of the snapshot.
\<close>

definition spec_snapshot_value :: "prices \<Rightarrow> (ticker \<times> rat) list \<Rightarrow> rat" where
  "spec_snapshot_value prices snapshot =
     sum_list (map (\<lambda>(t, q). case prices t of Some p \<Rightarrow> q * p | None \<Rightarrow> 0) snapshot)"

text \<open>
  The top-100 query as the specification words it: the rows of the date in descending
  order of market\_cap, ties in ascending order of ticker, the first 100 of them.
\<close>

definition spec_top100ByMarketCap :: "date \<Rightarrow> db \<Rightarrow> ticker list" where
  "spec_top100ByMarketCap d s =
     map (\<lambda>(d', t, sh, c, m). t)
       (take 100 (sort_key (\<lambda>(d', t, sh, c, m). - m)
          (sort_key (\<lambda>(d', t, sh, c, m). t)
             (filter (\<lambda>(d', t, sh, c, m). d' = d) (market_caps s)))))"

section \<open>Example inputs\<close>

text \<open>
  A small world: two symbols (one with a dot), shares reported on D0, prices that the
  provider returns at the first attempt (A closes at 2, on D2 at 3; B-B at 4), and a
  market that is open on D1 and D2.
\<close>

definition empty_db :: db where
  "empty_db = \<lparr>quarterly_shares = [], market_caps = [], index_composition = [],
     index_performance = []\<rparr>"

definition ex_ext :: ext where
  "ex_ext = \<lparr>market_open = (\<lambda>d. d = ''D1'' \<or> d = ''D2''),
     wiki_symbols = [''A'', ''B.B''],
     ordinary_shares_number =
       (\<lambda>t. if t = ''A'' then Some [(''D0'', 10)]
            else if t = ''B-B'' then Some [(''D0'', 5)] else None),
     yf_download = (\<lambda>tickers d n.
       \<lparr>prices_df = Some [(''A'', if d = ''D2'' then 3 else 2), (''B-B'', 4)],
          shared_errors = 0\<rparr>)\<rparr>"

text \<open>A composition table with snapshots on three dates.\<close>

definition ex_db_three :: db where
  "ex_db_three = empty_db\<lparr>index_composition :=
     [(''D1'', ''A'', 1), (''D2'', ''B'', 3), (''D2'', ''A'', 2), (''D3'', ''A'', 4)]\<rparr>"

text \<open>A price dict with one ticker, and one whose only price is zero.\<close>

definition ex_prices_A :: prices where
  "ex_prices_A = [''A'' \<mapsto> 2]"

definition ex_prices_zero :: prices where
  "ex_prices_zero = [''A'' \<mapsto> 0]"

text \<open>
  The database after the example world's run for D1 on the empty database, and prices
  of a later day on which C has replaced B-B.
\<close>

definition ex_db_day1 :: db where
  "ex_db_day1 = \<lparr>quarterly_shares = [(''A'', ''D0'', 10), (''B-B'', ''D0'', 5)],
     market_caps = [(''D1'', ''A'', 10, 2, 20), (''D1'', ''B-B'', 5, 4, 20)],
     index_composition = [(''D1'', ''A'', 2500), (''D1'', ''B-B'', 1250)],
     index_performance = [(''D1'', 10000)]\<rparr>"

definition ex_prices_day2 :: prices where
  "ex_prices_day2 = [''A'' \<mapsto> 3, ''B-B'' \<mapsto> 4, ''C'' \<mapsto> 6]"

text \<open>The example world with a provider that reports errors at every attempt.\<close>

definition ex_ext_limited :: ext where
  "ex_ext_limited = ex_ext\<lparr>yf_download := (\<lambda>tickers d n.
     \<lparr>prices_df = None, shared_errors = 1\<rparr>)\<rparr>"

text \<open>The database after the example world's run for D2 on the database of D1.\<close>

definition ex_db_day2 :: db where
  "ex_db_day2 = \<lparr>quarterly_shares = [(''A'', ''D0'', 10), (''B-B'', ''D0'', 5)],
     market_caps = [(''D1'', ''A'', 10, 2, 20), (''D1'', ''B-B'', 5, 4, 20),
        (''D2'', ''A'', 10, 3, 30), (''D2'', ''B-B'', 5, 4, 20)],
     index_composition = [(''D1'', ''A'', 2500), (''D1'', ''B-B'', 1250)],
     index_performance = [(''D1'', 10000), (''D2'', 12500)]\<rparr>"

text \<open>Market caps of one day on which the larger company has the later symbol.\<close>

definition ex_db_caps :: db where
  "ex_db_caps = empty_db\<lparr>market_caps :=
     [(''D1'', ''A'', 10, 2, 20), (''D1'', ''B'', 5, 8, 40), (''D2'', ''C'', 1, 1, 1)]\<rparr>"

section \<open>Properties of INSERT OR REPLACE\<close>

lemma executemany_snoc:
  "executemany pk (rows @ [r]) tbl = insert_or_replace pk r (executemany pk rows tbl)"
  by (simp add: executemany_def)

lemma executemany_Nil: "executemany pk [] tbl = tbl"
  by (simp add: executemany_def)

lemma executemany_split:
  "executemany pk rows tbl =
     filter (\<lambda>x. pk x \<notin> pk ` set rows) tbl @ executemany pk rows []"
proof (induction rows rule: rev_induct)
  case Nil
  show ?case by (simp add: executemany_Nil)
next
  case (snoc r rows)
  have "executemany pk (rows @ [r]) tbl =
          insert_or_replace pk r (filter (\<lambda>x. pk x \<notin> pk ` set rows) tbl @ executemany pk rows [])"
    using snoc.IH by (simp add: executemany_snoc)
  also have "\<dots> = filter (\<lambda>x. pk x \<notin> pk ` set (rows @ [r])) tbl
       @ insert_or_replace pk r (executemany pk rows [])"
    by (simp add: insert_or_replace_def conj_commute)
  finally show ?case by (simp add: executemany_snoc)
qed

lemma set_executemany_Nil: "set (executemany pk rows []) \<subseteq> set rows"
  by (induction rows rule: rev_induct)
     (auto simp: executemany_Nil executemany_snoc insert_or_replace_def)

lemma executemany_idem:
  "executemany pk rows (executemany pk rows tbl) = executemany pk rows tbl"
proof -
  let ?K = "\<lambda>x. pk x \<notin> pk ` set rows"
  have e: "filter ?K (executemany pk rows []) = []"
    using set_executemany_Nil [of pk rows] by (auto simp: filter_empty_conv)
  have "executemany pk rows (executemany pk rows tbl)
      = filter ?K (executemany pk rows tbl) @ executemany pk rows []"
    by (rule executemany_split)
  also have "filter ?K (executemany pk rows tbl) = filter ?K tbl"
    by (subst executemany_split) (simp add: e)
  finally show ?thesis by (simp add: executemany_split [symmetric])
qed

lemma insert_or_replace_idem:
  "insert_or_replace pk r (insert_or_replace pk r tbl) = insert_or_replace pk r tbl"
  by (simp add: insert_or_replace_def)

lemma in_executemany:
  assumes "r \<in> set rows" and "\<forall>r' \<in> set rows. pk r' = pk r \<longrightarrow> r' = r"
  shows "r \<in> set (executemany pk rows tbl)"
  using assms
proof (induction rows arbitrary: tbl rule: rev_induct)
  case Nil
  then show ?case by simp
next
  case (snoc x rows)
  show ?case
  proof (cases "x = r")
    case True
    then show ?thesis by (simp add: executemany_snoc insert_or_replace_def)
  next
    case False
    with snoc.prems have "r \<in> set rows" and "pk x \<noteq> pk r" by auto
    moreover from snoc.prems have "\<forall>r' \<in> set rows. pk r' = pk r \<longrightarrow> r' = r" by simp
    ultimately have "r \<in> set (executemany pk rows tbl)" using snoc.IH by blast
    with \<open>pk x \<noteq> pk r\<close> show ?thesis
      by (auto simp add: executemany_snoc insert_or_replace_def)
  qed
qed

lemma filter_executemany_other:
  assumes "\<forall>r \<in> set rows. \<not> P r" and "\<forall>x y. pk x = pk y \<longrightarrow> P x = P y"
  shows "filter P (executemany pk rows tbl) = filter P tbl"
proof -
  have a: "filter P (executemany pk rows []) = []"
    using set_executemany_Nil [of pk rows] assms(1) by (auto simp: filter_empty_conv)
  have b: "filter (\<lambda>x. pk x \<notin> pk ` set rows \<and> P x) tbl = filter P tbl"
  proof (rule filter_cong [OF refl])
    fix x assume "x \<in> set tbl"
    show "(pk x \<notin> pk ` set rows \<and> P x) = P x"
      using assms by (metis imageE)
  qed
  have "filter P (executemany pk rows tbl)
      = filter P (filter (\<lambda>x. pk x \<notin> pk ` set rows) tbl) @ filter P (executemany pk rows [])"
    by (subst executemany_split) simp
  then show ?thesis by (simp add: a b)
qed

section \<open>The most recent composition before a date\<close>

lemma sql_max_eq_Some:
  "sql_max xs = Some m \<longleftrightarrow> xs \<noteq> [] \<and> m = Max (set xs)"
  by (cases xs) (auto simp: Max.set_eq_fold [symmetric])

lemma sql_max_eq_None: "sql_max xs = None \<longleftrightarrow> xs = []"
  by (cases xs) auto

lemma rows_of_max_date_before_iff:
  "r \<in> set (rows_of_max_date_before d tbl) \<longleftrightarrow>
     r \<in> set tbl \<and> fst r < d \<and> (\<forall>r' \<in> set tbl. fst r' < d \<longrightarrow> fst r' \<le> fst r)"
proof (cases "max_date_before d tbl")
  case None
  then have "filter (\<lambda>r. fst r < d) tbl = []"
    by (simp add: max_date_before_def sql_max_eq_None)
  then have "\<forall>r \<in> set tbl. \<not> fst r < d"
    by (simp add: filter_empty_conv)
  with None show ?thesis
    by (auto simp: rows_of_max_date_before_def)
next
  case (Some m)
  let ?S = "fst ` {r \<in> set tbl. fst r < d}"
  from Some have "filter (\<lambda>r. fst r < d) tbl \<noteq> []"
    and m: "m = Max (set (map fst (filter (\<lambda>r. fst r < d) tbl)))"
    by (simp_all add: max_date_before_def sql_max_eq_Some)
  then obtain r0 where "r0 \<in> set tbl" "fst r0 < d"
    by (auto simp: filter_empty_conv)
  then have ne: "?S \<noteq> {}" by blast
  have fin: "finite ?S" by simp
  have m': "m = Max ?S" using m by simp
  have mS: "m \<in> ?S" unfolding m' by (rule Max_in [OF fin ne])
  have ge: "x \<le> m" if "x \<in> ?S" for x unfolding m' by (rule Max_ge [OF fin that])
  have "fst r = m \<longleftrightarrow> fst r < d \<and> (\<forall>r' \<in> set tbl. fst r' < d \<longrightarrow> fst r' \<le> fst r)"
    if "r \<in> set tbl"
  proof
    assume e: "fst r = m"
    from mS have "m < d" by blast
    moreover have "fst r' \<le> m" if "r' \<in> set tbl" "fst r' < d" for r'
      by (rule ge) (use that in blast)
    ultimately show "fst r < d \<and> (\<forall>r' \<in> set tbl. fst r' < d \<longrightarrow> fst r' \<le> fst r)"
      using e by simp
  next
    assume a: "fst r < d \<and> (\<forall>r' \<in> set tbl. fst r' < d \<longrightarrow> fst r' \<le> fst r)"
    with that have "fst r \<in> ?S" by blast
    then have "fst r \<le> m" by (rule ge)
    moreover from mS a have "m \<le> fst r" by blast
    ultimately show "fst r = m" by simp
  qed
  with Some show ?thesis
    by (simp add: rows_of_max_date_before_def cong: conj_cong)
qed

lemma rows_of_max_date_before_Nil:
  "rows_of_max_date_before d tbl = [] \<longleftrightarrow> (\<forall>r \<in> set tbl. \<not> fst r < d)"
proof (cases "max_date_before d tbl")
  case None
  then have "filter (\<lambda>r. fst r < d) tbl = []"
    by (simp add: max_date_before_def sql_max_eq_None)
  then have "\<forall>r \<in> set tbl. \<not> fst r < d"
    by (simp add: filter_empty_conv)
  with None show ?thesis
    by (simp add: rows_of_max_date_before_def)
next
  case (Some m)
  let ?S = "fst ` {r \<in> set tbl. fst r < d}"
  from Some have "filter (\<lambda>r. fst r < d) tbl \<noteq> []"
    and m: "m = Max (set (map fst (filter (\<lambda>r. fst r < d) tbl)))"
    by (simp_all add: max_date_before_def sql_max_eq_Some)
  then obtain r0 where r0: "r0 \<in> set tbl" "fst r0 < d"
    by (auto simp: filter_empty_conv)
  then have ne: "?S \<noteq> {}" by blast
  have "Max ?S \<in> ?S" by (rule Max_in [OF _ ne]) simp
  then have "m \<in> ?S" using m by simp
  then obtain r where "r \<in> set tbl" "fst r = m" by force
  then have "filter (\<lambda>r. fst r = m) tbl \<noteq> []"
    by (auto simp: filter_empty_conv)
  with Some r0 show ?thesis
    by (auto simp add: rows_of_max_date_before_def)
qed

lemma set_fetch_recent_composition:
  "set (fetch_recent_composition d s) =
     {(t, q). \<exists>d'. (d', t, q) \<in> set (index_composition s) \<and> d' < d \<and>
        (\<forall>r \<in> set (index_composition s). fst r < d \<longrightarrow> fst r \<le> d')}"
  (is "?L = ?R")
proof (rule set_eqI)
  fix x :: "ticker \<times> rat"
  obtain t q where x: "x = (t, q)" by (cases x)
  have "x \<in> ?L \<longleftrightarrow> (\<exists>d'. (d', t, q) \<in> set (rows_of_max_date_before d (index_composition s)))"
    unfolding fetch_recent_composition_def x by force
  also have "\<dots> \<longleftrightarrow> x \<in> ?R"
    unfolding x by (simp add: rows_of_max_date_before_iff)
  finally show "x \<in> ?L \<longleftrightarrow> x \<in> ?R" .
qed

lemma set_get_previous_top_100:
  "set (get_previous_top_100 d s) =
     {t. \<exists>d' q. (d', t, q) \<in> set (index_composition s) \<and> d' < d \<and>
        (\<forall>r \<in> set (index_composition s). fst r < d \<longrightarrow> fst r \<le> d')}"
  (is "?L = ?R")
proof (rule set_eqI)
  fix t :: ticker
  have "t \<in> ?L \<longleftrightarrow> (\<exists>d' q. (d', t, q) \<in> set (rows_of_max_date_before d (index_composition s)))"
    unfolding get_previous_top_100_def Let_def by force
  also have "\<dots> \<longleftrightarrow> t \<in> ?R"
    by (simp add: rows_of_max_date_before_iff)
  finally show "t \<in> ?L \<longleftrightarrow> t \<in> ?R" .
qed

text \<open>
  Claim C8. The rows that fetch\_recent\_composition and get\_previous\_top\_100 return for
  a date d are exactly the rows of index\_composition whose date d' is strictly before d
  and is the latest such date in the table; no row dated d or later is ever returned,
  and both queries return the empty list when the table has no row dated before d.
\<close>

theorem strict_prior_composition_lookup:
  "set (fetch_recent_composition d s) =
     {(t, q). \<exists>d'. (d', t, q) \<in> set (index_composition s) \<and> d' < d \<and>
        (\<forall>r \<in> set (index_composition s). fst r < d \<longrightarrow> fst r \<le> d')}
   \<and> set (get_previous_top_100 d s) =
     {t. \<exists>d' q. (d', t, q) \<in> set (index_composition s) \<and> d' < d \<and>
        (\<forall>r \<in> set (index_composition s). fst r < d \<longrightarrow> fst r \<le> d')}
   \<and> ((\<forall>r \<in> set (index_composition s). \<not> fst r < d) \<longrightarrow>
        fetch_recent_composition d s = [] \<and> get_previous_top_100 d s = [])"
proof (intro conjI impI)
  assume "\<forall>r \<in> set (index_composition s). \<not> fst r < d"
  then have "rows_of_max_date_before d (index_composition s) = []"
    by (simp add: rows_of_max_date_before_Nil)
  then show "fetch_recent_composition d s = []" "get_previous_top_100 d s = []"
    by (simp_all add: fetch_recent_composition_def get_previous_top_100_def)
qed (rule set_fetch_recent_composition set_get_previous_top_100)+

theorem strict_prior_composition_lookup_witness:
  "fetch_recent_composition ''D3'' ex_db_three = [(''B'', 3), (''A'', 2)]
   \<and> get_previous_top_100 ''D3'' ex_db_three = [''A'', ''B'']
   \<and> fetch_recent_composition ''D1'' ex_db_three = []
   \<and> get_previous_top_100 ''D1'' ex_db_three = []"
proof -
  have h: "\<forall>r \<in> set (index_composition ex_db_three). \<not> fst r < ''D1''"
    by (simp add: ex_db_three_def empty_db_def)
  have "fetch_recent_composition ''D1'' ex_db_three = [] \<and> get_previous_top_100 ''D1'' ex_db_three = []"
    using strict_prior_composition_lookup [of "''D1''" ex_db_three] h by blast
  moreover have "fetch_recent_composition ''D3'' ex_db_three = [(''B'', 3), (''A'', 2)]"
    by (simp add: fetch_recent_composition_def rows_of_max_date_before_def max_date_before_def
        ex_db_three_def empty_db_def) 
  moreover have "get_previous_top_100 ''D3'' ex_db_three = [''A'', ''B'']"
    by (simp add: get_previous_top_100_def rows_of_max_date_before_def max_date_before_def
        ex_db_three_def empty_db_def) 
  ultimately show ?thesis by simp
qed

section \<open>Non-trading days\<close>

text \<open>
  Claim C9. When the trading-day check fails, compute\_index\_value returns at once:
  no exception, and the database (all four tables) is the one it was given.
\<close>

theorem non_trading_day_noop:
  "\<not> is_trading_day e d \<Longrightarrow> compute_index_value e d fetch_quarterly_results s = (None, s)"
  by (simp add: compute_index_value_def)

theorem non_trading_day_noop_witness:
  "\<not> is_trading_day ex_ext ''D3''
   \<and> compute_index_value ex_ext ''D3'' True ex_db_three = (None, ex_db_three)"
proof -
  have h: "\<not> is_trading_day ex_ext ''D3''"
    by (simp add: is_trading_day_def ex_ext_def)
  show ?thesis using h non_trading_day_noop [OF h, of True ex_db_three] by simp
qed

section \<open>Rebalancing\<close>

lemma composition_loop_Inr_iff:
  "(\<exists>rows. composition_loop prices d w v ts = Inr rows) \<longleftrightarrow>
     (\<forall>t \<in> set ts. \<exists>p. prices t = Some p \<and> p \<noteq> 0)"
  by (induction ts) (auto split: option.splits sum.splits)

lemma composition_loop_rows:
  "composition_loop prices d w v ts = Inr rows \<Longrightarrow>
     map (\<lambda>(d', t, q). t) rows = ts \<and> list_all (\<lambda>(d', t, q). d' = d) rows"
  by (induction ts arbitrary: rows) (auto split: option.splits sum.splits if_splits)

lemma composition_loop_mem:
  "composition_loop prices d w v ts = Inr rows \<Longrightarrow> t \<in> set ts \<Longrightarrow>
     \<exists>p. prices t = Some p \<and> p \<noteq> 0 \<and> (d, t, (w * v) / p) \<in> set rows"
  by (induction ts arbitrary: rows) (auto split: option.splits sum.splits if_splits)

lemma composition_loop_set:
  "composition_loop prices d w v ts = Inr rows \<Longrightarrow> (d', t, q) \<in> set rows \<Longrightarrow>
     d' = d \<and> t \<in> set ts \<and> (\<exists>p. prices t = Some p \<and> p \<noteq> 0 \<and> q = (w * v) / p)"
  by (induction ts arbitrary: rows) (auto split: option.splits sum.splits if_splits)

lemma composition_loop_revalue:
  "composition_loop prices d w v ts = Inr rows \<Longrightarrow>
     revalue prices (map (\<lambda>(d', t, q). (t, q)) rows) acc = Inr (acc + of_nat (length ts) * (w * v))"
proof (induction ts arbitrary: rows acc)
  case Nil
  then show ?case by simp
next
  case (Cons t ts)
  from Cons.prems obtain p rest where p: "prices t = Some p" "p \<noteq> 0"
    and rest: "composition_loop prices d w v ts = Inr rest"
    and rows: "rows = (d, t, (w * v) / p) # rest"
    by (auto split: option.splits sum.splits if_splits)
  show ?case
    using Cons.IH [OF rest, of "acc + p * ((w * v) / p)"] p
    by (simp add: rows algebra_simps)
qed

lemma index_composition_of_revalue:
  assumes "index_composition_of prices new v d = Inr rows"
  shows "revalue prices (map (\<lambda>(d', t, q). (t, q)) rows) 0 = Inr v"
proof -
  from assms have ne: "length new \<noteq> 0"
    and loop: "composition_loop prices d (1 / of_nat (length new)) v new = Inr rows"
    by (auto simp: index_composition_of_def split: if_splits)
  from ne have "(of_nat (length new) :: rat) \<noteq> 0" by simp
  then have "of_nat (length new) * (1 / of_nat (length new) * v) = v" by simp
  with composition_loop_revalue [OF loop, of 0] show ?thesis by simp
qed

lemma index_composition_of_Inr_iff:
  "(\<exists>rows. index_composition_of prices new v d = Inr rows) \<longleftrightarrow>
     new \<noteq> [] \<and> (\<forall>t \<in> set new. \<exists>p. prices t = Some p \<and> p \<noteq> 0)"
  using composition_loop_Inr_iff [of prices d "1 / of_nat (length new)" v new]
  by (auto simp: index_composition_of_def)

lemma rebalance_index_Inr:
  "rebalance_index prices new v d s = Inr s' \<longleftrightarrow>
     (\<exists>rows. index_composition_of prices new v d = Inr rows \<and>
        s' = store_new_composition rows s)"
  by (auto simp: rebalance_index_def split: sum.splits)

lemma rebalance_index_Nil: "rebalance_index prices [] v d s = Inl ZeroDivisionError"
  by (simp add: rebalance_index_def index_composition_of_def)

lemma dump_index_value_Inr:
  "dump_index_value prices prev new d s = Inr (v, s') \<longleftrightarrow>
     (if fetch_recent_composition d s \<noteq> []
      then revalue prices (fetch_recent_composition d s) 0 else Inr 10000) = Inr v
     \<and> (\<exists>s1. track_composition_changes prices prev new v d s = Inr s1
           \<and> s' = store_index_value d v s1)"
  unfolding dump_index_value_def Let_def
  by (auto split: sum.splits)

lemma in_insert_or_replace: "r \<in> set (insert_or_replace pk r tbl)"
  by (simp add: insert_or_replace_def)

lemma store_index_value_fields [simp]:
  "quarterly_shares (store_index_value d v s) = quarterly_shares s"
  "market_caps (store_index_value d v s) = market_caps s"
  "index_composition (store_index_value d v s) = index_composition s"
  "index_performance (store_index_value d v s) =
     insert_or_replace performance_pk (d, v) (index_performance s)"
  by (simp_all add: store_index_value_def)

lemma store_new_composition_fields [simp]:
  "quarterly_shares (store_new_composition rows s) = quarterly_shares s"
  "market_caps (store_new_composition rows s) = market_caps s"
  "index_composition (store_new_composition rows s) =
     executemany composition_pk rows (index_composition s)"
  "index_performance (store_new_composition rows s) = index_performance s"
  by (simp_all add: store_new_composition_def)

lemma rebalance_index_mem:
  assumes "rebalance_index prices new_top_100 curr_index_value d s = Inr s'"
    and t: "t \<in> set new_top_100"
  shows "\<exists>p. prices t = Some p \<and> p \<noteq> 0 \<and>
      (d, t, (1 / of_nat (length new_top_100) * curr_index_value) / p)
        \<in> set (index_composition s')"
proof -
  let ?w = "1 / of_nat (length new_top_100) :: rat"
  from assms obtain rows where
    rows: "index_composition_of prices new_top_100 curr_index_value d = Inr rows"
    and s': "s' = store_new_composition rows s"
    by (auto simp: rebalance_index_Inr)
  from rows have
    loop: "composition_loop prices d ?w curr_index_value new_top_100 = Inr rows"
    by (auto simp: index_composition_of_def split: if_splits)
  from composition_loop_mem [OF loop t] obtain p where
    p: "prices t = Some p" "p \<noteq> 0" and r: "(d, t, (?w * curr_index_value) / p) \<in> set rows"
    by blast
  have "\<forall>r' \<in> set rows. composition_pk r' = composition_pk (d, t, (?w * curr_index_value) / p)
          \<longrightarrow> r' = (d, t, (?w * curr_index_value) / p)"
    using composition_loop_set [OF loop] p by fastforce
  from in_executemany [OF r this] have
    "(d, t, (?w * curr_index_value) / p) \<in> set (index_composition s')"
    by (simp add: s')
  with p show ?thesis by blast
qed

lemma rebalance_index_other_tables:
  assumes "rebalance_index prices new_top_100 curr_index_value d s = Inr s'"
  shows "quarterly_shares s' = quarterly_shares s \<and> market_caps s' = market_caps s
    \<and> index_performance s' = index_performance s \<and> new_top_100 \<noteq> []"
  using assms
  by (auto simp: rebalance_index_Inr index_composition_of_def split: if_splits)

text \<open>
  Claim C6, as amended. When rebalance\_index succeeds, the weight is 1/len(new\_top\_100)
  (which is 1/100 when the list has 100 tickers), and every ticker of the new list gets
  a row for the date whose quantity is (weight * curr\_index\_value) / prices[ticker]:
  all constituents are recomputed. The other three tables are untouched.
\<close>

theorem rebalance_weighting:
  assumes "rebalance_index prices new_top_100 curr_index_value d s = Inr s'"
  shows "new_top_100 \<noteq> []
    \<and> (\<forall>t \<in> set new_top_100. \<exists>p. prices t = Some p \<and> p \<noteq> 0 \<and>
          (d, t, (1 / of_nat (length new_top_100) * curr_index_value) / p)
             \<in> set (index_composition s'))
    \<and> (length new_top_100 = 100 \<longrightarrow>
         (\<forall>t \<in> set new_top_100. \<exists>p. prices t = Some p \<and>
            (d, t, (1 / 100 * curr_index_value) / p) \<in> set (index_composition s')))
    \<and> quarterly_shares s' = quarterly_shares s \<and> market_caps s' = market_caps s
    \<and> index_performance s' = index_performance s"
proof -
  note mem = rebalance_index_mem [OF assms]
  have c100: "\<exists>p. prices t = Some p \<and> (d, t, (1 / 100 * curr_index_value) / p) \<in> set (index_composition s')"
    if "length new_top_100 = 100" "t \<in> set new_top_100" for t
    using mem [OF that(2)] that(1) by auto
  show ?thesis
    using mem c100 rebalance_index_other_tables [OF assms] by simp
qed

theorem rebalance_weighting_witness:
  "rebalance_index ex_prices_A [''A''] 10000 ''D1'' empty_db
     = Inr (empty_db\<lparr>index_composition := [(''D1'', ''A'', 5000)]\<rparr>)
   \<and> (''D1'', ''A'', (1 / of_nat (length [''A'']) * 10000) / 2)
        \<in> set (index_composition (empty_db\<lparr>index_composition := [(''D1'', ''A'', 5000)]\<rparr>))"
proof -
  have h: "rebalance_index ex_prices_A [''A''] 10000 ''D1'' empty_db
     = Inr (empty_db\<lparr>index_composition := [(''D1'', ''A'', 5000)]\<rparr>)"
    by (simp add: rebalance_index_def index_composition_of_def ex_prices_A_def
        store_new_composition_def executemany_def insert_or_replace_def empty_db_def)
  from rebalance_weighting [OF h] have
    "\<exists>p. ex_prices_A ''A'' = Some p \<and> p \<noteq> 0 \<and>
       (''D1'', ''A'', (1 / of_nat (length [''A'']) * 10000) / p)
         \<in> set (index_composition (empty_db\<lparr>index_composition := [(''D1'', ''A'', 5000)]\<rparr>))"
    by simp
  then have "(''D1'', ''A'', (1 / of_nat (length [''A'']) * 10000) / 2)
     \<in> set (index_composition (empty_db\<lparr>index_composition := [(''D1'', ''A'', 5000)]\<rparr>))"
    by (simp add: ex_prices_A_def)
  with h show ?thesis by simp
qed

text \<open>
  The claim as stated fails: with one constituent at price 2 and index value 10000 the
  quantity written is 5000, while weight 1/100 would give 50.
\<close>

theorem rebalance_weighting_counterexample:
  "rebalance_index ex_prices_A [''A''] 10000 ''D1'' empty_db
     = Inr (empty_db\<lparr>index_composition := [(''D1'', ''A'', 5000)]\<rparr>)
   \<and> ex_prices_A ''A'' = Some 2
   \<and> (5000 :: rat) \<noteq> (1 / 100 * 10000) / 2"
  by (simp add: rebalance_index_def index_composition_of_def ex_prices_A_def
      store_new_composition_def executemany_def insert_or_replace_def empty_db_def)

lemma executemany_distinct:
  "distinct (map pk rows) \<Longrightarrow> executemany pk rows [] = rows"
proof (induction rows rule: rev_induct)
  case Nil
  show ?case by (simp add: executemany_Nil)
next
  case (snoc r rows)
  then have "executemany pk rows [] = rows" and "\<forall>x \<in> set rows. pk x \<noteq> pk r"
    by (auto simp: image_iff)
  then show ?case
    by (simp add: executemany_snoc insert_or_replace_def)
qed

lemma track_composition_changes_forced:
  "track_composition_changes prices [] new v d s = rebalance_index prices new v d s"
  by (simp add: track_composition_changes_def)

lemma first_run_empty_top_100:
  assumes "\<forall>r \<in> set (index_composition s). \<not> fst r < d"
  shows "dump_index_value prices (get_previous_top_100 d s) [] d s = Inl ZeroDivisionError"
proof -
  from assms have "rows_of_max_date_before d (index_composition s) = []"
    by (simp add: rows_of_max_date_before_Nil)
  then have "fetch_recent_composition d s = []" "get_previous_top_100 d s = []"
    by (simp_all add: fetch_recent_composition_def get_previous_top_100_def)
  then show ?thesis
    by (simp add: dump_index_value_def track_composition_changes_forced rebalance_index_Nil)
qed

text \<open>
  Claim C1. When dump\_index\_value rebalances (a ticker was removed, or there is no
  previous list) and returns the index value v, the composition rows it wrote are those
  of the new top-100 list, dated d, and revaluing them at the prices of the day gives
  exactly v, the value stored for d in index\_performance.
\<close>

theorem rebalance_continuity:
  assumes "dump_index_value prices prev_top_100 new_top_100 d s = Inr (v, s')"
    and "set prev_top_100 - set new_top_100 \<noteq> {} \<or> prev_top_100 = []"
  shows "\<exists>rows. index_composition_of prices new_top_100 v d = Inr rows
      \<and> index_composition s' = executemany composition_pk rows (index_composition s)
      \<and> map (\<lambda>(d', t, q). t) rows = new_top_100
      \<and> list_all (\<lambda>(d', t, q). d' = d) rows
      \<and> revalue prices (map (\<lambda>(d', t, q). (t, q)) rows) 0 = Inr v
      \<and> (d, v) \<in> set (index_performance s')
      \<and> (distinct new_top_100 \<and>
           (\<forall>r \<in> set (index_composition s). fst r = d \<longrightarrow> fst (snd r) \<in> set new_top_100)
           \<longrightarrow> filter (\<lambda>r. fst r = d) (index_composition s') = rows)"
proof -
  from assms(1) obtain s1 where
    tr: "track_composition_changes prices prev_top_100 new_top_100 v d s = Inr s1"
    and s': "s' = store_index_value d v s1"
    by (auto simp: dump_index_value_Inr)
  from tr assms(2) have "rebalance_index prices new_top_100 v d s = Inr s1"
    by (auto simp: track_composition_changes_def)
  then obtain rows where
    rows: "index_composition_of prices new_top_100 v d = Inr rows"
    and s1: "s1 = store_new_composition rows s"
    by (auto simp: rebalance_index_Inr)
  from rows have
    loop: "composition_loop prices d (1 / of_nat (length new_top_100)) v new_top_100 = Inr rows"
    by (auto simp: index_composition_of_def split: if_splits)
  note shape = composition_loop_rows [OF loop]
  have dates: "\<forall>r \<in> set rows. fst r = d"
    using shape by (auto simp: list_all_iff)
  have comp: "index_composition s' = executemany composition_pk rows (index_composition s)"
    by (simp add: s' s1)
  have perf: "(d, v) \<in> set (index_performance s')"
    by (simp add: s' in_insert_or_replace)
  have stored: "filter (\<lambda>r. fst r = d) (index_composition s') = rows"
    if dist: "distinct new_top_100"
      and old: "\<forall>r \<in> set (index_composition s). fst r = d \<longrightarrow> fst (snd r) \<in> set new_top_100"
  proof -
    have pk: "map composition_pk rows = map (\<lambda>t. (d, t)) (map (\<lambda>(d', t, q). t) rows)"
      using dates by (induction rows) auto
    have "distinct (map composition_pk rows)"
      unfolding pk using shape dist by (simp add: distinct_map inj_on_def)
    then have e: "executemany composition_pk rows [] = rows"
      by (rule executemany_distinct)
    have keys: "composition_pk ` set rows = (\<lambda>t. (d, t)) ` set new_top_100"
      using arg_cong [OF pk, of set] shape by (simp add: image_image) 
    have "filter (\<lambda>r. fst r = d)
            (filter (\<lambda>x. composition_pk x \<notin> composition_pk ` set rows) (index_composition s)) = []"
      unfolding keys using old by (auto simp: filter_empty_conv)
    moreover have "filter (\<lambda>r. fst r = d) rows = rows"
      using dates by (simp add: filter_id_conv)
    ultimately show ?thesis
      unfolding comp by (subst executemany_split) (simp add: e)
  qed
  show ?thesis
    using rows comp shape index_composition_of_revalue [OF rows] perf stored
    by blast
qed

theorem rebalance_continuity_witness:
  "dump_index_value ex_prices_day2 [''A'', ''B-B''] [''A'', ''C''] ''D2'' ex_db_day1
     = Inr (12500, ex_db_day1\<lparr>
         index_composition := [(''D1'', ''A'', 2500), (''D1'', ''B-B'', 1250),
           (''D2'', ''A'', 6250 / 3), (''D2'', ''C'', 6250 / 6)],
         index_performance := [(''D1'', 10000), (''D2'', 12500)]\<rparr>)
   \<and> revalue ex_prices_day2 [(''A'', 6250 / 3), (''C'', 6250 / 6)] 0 = Inr 12500"
proof -
  let ?s' = "ex_db_day1\<lparr>
         index_composition := [(''D1'', ''A'', 2500), (''D1'', ''B-B'', 1250),
           (''D2'', ''A'', 6250 / 3), (''D2'', ''C'', 6250 / 6)],
         index_performance := [(''D1'', 10000), (''D2'', 12500)]\<rparr>"
  have run: "dump_index_value ex_prices_day2 [''A'', ''B-B''] [''A'', ''C''] ''D2'' ex_db_day1
     = Inr (12500, ?s')"
    by (simp add: dump_index_value_def fetch_recent_composition_def rows_of_max_date_before_def
        max_date_before_def track_composition_changes_def rebalance_index_def
        index_composition_of_def store_new_composition_def store_index_value_def
        executemany_def insert_or_replace_def ex_db_day1_def ex_prices_day2_def)
  have ev: "set [''A'', ''B-B''] - set [''A'', ''C''] \<noteq> {} \<or> [''A'', ''B-B''] = ([] :: ticker list)"
    by auto
  have rows: "index_composition_of ex_prices_day2 [''A'', ''C''] 12500 ''D2''
     = Inr [(''D2'', ''A'', 6250 / 3), (''D2'', ''C'', 6250 / 6)]"
    by (simp add: index_composition_of_def ex_prices_day2_def)
  from rebalance_continuity [OF run ev] rows
  have "revalue ex_prices_day2 [(''A'', 6250 / 3), (''C'', 6250 / 6)] 0 = Inr 12500"
    by auto
  with run show ?thesis by simp
qed

section \<open>Chunked download with retries\<close>

declare sub_tickers_list.simps [simp del]

lemma sub_tickers_list_chunks:
  "concat (sub_tickers_list tickers) = tickers
   \<and> (\<forall>c \<in> set (sub_tickers_list tickers). c \<noteq> [] \<and> length c \<le> 20)"
proof (induction tickers rule: sub_tickers_list.induct)
  case (1 tickers)
  show ?case
  proof (cases "tickers = []")
    case True
    then show ?thesis by (subst sub_tickers_list.simps, subst sub_tickers_list.simps) simp
  next
    case False
    have e: "sub_tickers_list tickers = take 20 tickers # sub_tickers_list (drop 20 tickers)"
      using False by (subst sub_tickers_list.simps) simp
    from False have "take 20 tickers \<noteq> []" by simp
    with 1 [OF False] show ?thesis unfolding e by simp
  qed
qed

lemma yf_download_attempts_error:
  "yf_download_attempts e c d attempt remaining = Inl err \<Longrightarrow> err = RetryError"
  by (induction remaining arbitrary: attempt) (auto simp: Let_def split: if_splits)

lemma yf_download_attempts_exhausted:
  "(\<forall>k < remaining. shared_errors (yf_download e c d (attempt + k)) \<noteq> 0) \<Longrightarrow>
     yf_download_attempts e c d attempt remaining = Inl RetryError"
proof (induction remaining arbitrary: attempt)
  case 0
  show ?case by simp
next
  case (Suc remaining)
  from Suc.prems have now: "shared_errors (yf_download e c d attempt) \<noteq> 0"
    by (metis add.right_neutral zero_less_Suc)
  have "\<forall>k < remaining. shared_errors (yf_download e c d (Suc attempt + k)) \<noteq> 0"
  proof (intro allI impI)
    fix k assume "k < remaining"
    then have "Suc k < Suc remaining" by simp
    with Suc.prems have "shared_errors (yf_download e c d (attempt + Suc k)) \<noteq> 0" by blast
    then show "shared_errors (yf_download e c d (Suc attempt + k)) \<noteq> 0" by simp
  qed
  from Suc.IH [OF this] now show ?case by (simp add: Let_def)
qed

lemma yf_download_helper_exhausted:
  assumes "\<forall>n \<in> {1..10}. shared_errors (yf_download e c d n) \<noteq> 0"
  shows "yf_download_helper e c d = Inl RetryError"
  unfolding yf_download_helper_def
proof (rule yf_download_attempts_exhausted, intro allI impI)
  fix k :: nat assume "k < 10"
  then have "1 + k \<in> {1..10}" by simp
  with assms show "shared_errors (yf_download e c d (1 + k)) \<noteq> 0" by blast
qed

lemma download_chunks_error:
  "download_chunks e d chunks = Inl err \<Longrightarrow> err = RetryError"
proof (induction chunks arbitrary: err)
  case Nil
  then show ?case by simp
next
  case (Cons c chunks)
  then show ?case
    by (auto simp: yf_download_helper_def split: sum.splits dest: yf_download_attempts_error)
qed

lemma download_chunks_exhausted:
  assumes "c \<in> set chunks" and "yf_download_helper e c d = Inl RetryError"
  shows "download_chunks e d chunks = Inl RetryError"
  using assms(1)
proof (induction chunks)
  case Nil
  then show ?case by simp
next
  case (Cons x chunks)
  show ?case
  proof (cases "yf_download_helper e x d")
    case (Inl err)
    then have "download_chunks e d (x # chunks) = Inl err" by simp
    then show ?thesis using download_chunks_error by blast
  next
    case (Inr f)
    with assms(2) have "x \<noteq> c" by auto
    with Cons.prems have "c \<in> set chunks" by simp
    then have "download_chunks e d chunks = Inl RetryError" by (rule Cons.IH)
    with Inr show ?thesis by simp
  qed
qed

lemma yf_downloader_exhausted:
  assumes "c \<in> set (sub_tickers_list tickers)"
    and "\<forall>n \<in> {1..10}. shared_errors (yf_download e c d n) \<noteq> 0"
  shows "yf_downloader e tickers d = Inl RetryError"
  using download_chunks_exhausted [OF assms(1) yf_download_helper_exhausted [OF assms(2)]]
  by (simp add: yf_downloader_def)

lemma fetch_and_store_all_quarterly_shares_fields [simp]:
  "market_caps (fetch_and_store_all_quarterly_shares e tickers s) = market_caps s"
  "index_composition (fetch_and_store_all_quarterly_shares e tickers s) = index_composition s"
  "index_performance (fetch_and_store_all_quarterly_shares e tickers s) = index_performance s"
  by (simp_all add: fetch_and_store_all_quarterly_shares_def store_quarterly_shares_def Let_def)

text \<open>
  Claim C7. On a trading day, when for some chunk of the universe (chunks of at most
  20 tickers, in order) the provider reports errors at each of the attempts 1 to 10,
  yf\_downloader raises RetryError, compute\_index\_value ends with that exception, and
  the run has written no index value, no market cap and no composition row.
\<close>

theorem rate_limit_exhaustion_is_fatal:
  assumes "is_trading_day e d"
    and "c \<in> set (sub_tickers_list (fetch_sp500_stocks e))"
    and "\<forall>n \<in> {1..10}. shared_errors (yf_download e c d n) \<noteq> 0"
  shows "length c \<le> 20
    \<and> yf_downloader e (fetch_sp500_stocks e) d = Inl RetryError
    \<and> fst (compute_index_value e d fetch_quarterly_results s) = Some RetryError
    \<and> index_performance (snd (compute_index_value e d fetch_quarterly_results s))
        = index_performance s
    \<and> market_caps (snd (compute_index_value e d fetch_quarterly_results s)) = market_caps s
    \<and> index_composition (snd (compute_index_value e d fetch_quarterly_results s))
        = index_composition s"
proof -
  have len: "length c \<le> 20"
    using sub_tickers_list_chunks [of "fetch_sp500_stocks e"] assms(2) by blast
  have dl: "yf_downloader e (fetch_sp500_stocks e) d = Inl RetryError"
    using assms(2,3) by (rule yf_downloader_exhausted)
  then have fc: "fetch_closing_prices e (fetch_sp500_stocks e) d = Inl RetryError"
    by (simp add: fetch_closing_prices_def)
  have run: "compute_index_value e d fetch_quarterly_results s =
     (Some RetryError,
      if fetch_quarterly_results
      then fetch_and_store_all_quarterly_shares e (fetch_sp500_stocks e) s else s)"
    using assms(1) fc by (simp add: compute_index_value_def Let_def)
  show ?thesis
    using len dl by (simp add: run)
qed

theorem rate_limit_exhaustion_is_fatal_witness:
  "is_trading_day ex_ext_limited ''D1''
   \<and> [''A'', ''B-B''] \<in> set (sub_tickers_list (fetch_sp500_stocks ex_ext_limited))
   \<and> shared_errors (yf_download ex_ext_limited [''A'', ''B-B''] ''D1'' 10) \<noteq> 0
   \<and> fst (compute_index_value ex_ext_limited ''D1'' True empty_db) = Some RetryError
   \<and> index_performance (snd (compute_index_value ex_ext_limited ''D1'' True empty_db)) = []"
proof -
  have h1: "is_trading_day ex_ext_limited ''D1''"
    by (simp add: is_trading_day_def ex_ext_limited_def ex_ext_def)
  have h2: "[''A'', ''B-B''] \<in> set (sub_tickers_list (fetch_sp500_stocks ex_ext_limited))"
    by (simp add: fetch_sp500_stocks_def ex_ext_limited_def ex_ext_def sub_tickers_list.simps)
  have h3: "\<forall>n \<in> {1..10}. shared_errors (yf_download ex_ext_limited [''A'', ''B-B''] ''D1'' n) \<noteq> 0"
    by (simp add: ex_ext_limited_def)
  have h4: "shared_errors (yf_download ex_ext_limited [''A'', ''B-B''] ''D1'' 10) \<noteq> 0"
    by (simp add: ex_ext_limited_def)
  from rate_limit_exhaustion_is_fatal [OF h1 h2 h3, of True empty_db] h1 h2 h4
  show ?thesis by (simp add: empty_db_def)
qed

section \<open>The daily run\<close>

lemma revalue_Inr_iff:
  "revalue prices snapshot acc = Inr v \<longleftrightarrow>
     (\<forall>r \<in> set snapshot. prices (fst r) \<noteq> None) \<and> v = acc + spec_snapshot_value prices snapshot"
proof (induction snapshot arbitrary: acc)
  case Nil
  show ?case by (auto simp: spec_snapshot_value_def)
next
  case (Cons r snapshot)
  obtain t q where r: "r = (t, q)" by (cases r)
  show ?case
  proof (cases "prices t")
    case None
    then show ?thesis by (simp add: r)
  next
    case (Some p)
    have "spec_snapshot_value prices (r # snapshot) = q * p + spec_snapshot_value prices snapshot"
      by (simp add: spec_snapshot_value_def r Some)
    then show ?thesis
      using Cons.IH [of "acc + p * q"] Some by (simp add: r algebra_simps)
  qed
qed

lemma fetch_recent_composition_cong:
  "index_composition s = index_composition s' \<Longrightarrow>
     fetch_recent_composition d s = fetch_recent_composition d s'"
  by (simp add: fetch_recent_composition_def)

lemma get_previous_top_100_cong:
  "index_composition s = index_composition s' \<Longrightarrow>
     get_previous_top_100 d s = get_previous_top_100 d s'"
  by (simp add: get_previous_top_100_def)

lemma get_top_100_stocks_cong:
  "market_caps s = market_caps s' \<Longrightarrow> get_top_100_stocks d s = get_top_100_stocks d s'"
  by (simp add: get_top_100_stocks_def)

lemma sort_key_Nil_iff: "sort_key f xs = [] \<longleftrightarrow> xs = []"
  by (metis length_sort length_0_conv)

lemma get_previous_top_100_Nil_iff:
  "get_previous_top_100 d s = [] \<longleftrightarrow> rows_of_max_date_before d (index_composition s) = []"
  by (simp add: get_previous_top_100_def Let_def sort_key_Nil_iff)

lemma fetch_recent_composition_Nil_iff:
  "fetch_recent_composition d s = [] \<longleftrightarrow> get_previous_top_100 d s = []"
  by (simp add: get_previous_top_100_Nil_iff fetch_recent_composition_def)

lemma no_prior_composition:
  "(\<forall>r \<in> set (index_composition s). \<not> fst r < d) \<longleftrightarrow> get_previous_top_100 d s = []"
  by (simp add: get_previous_top_100_Nil_iff rows_of_max_date_before_Nil)

lemma store_market_data_fields [simp]:
  "quarterly_shares (store_market_data rows s) = quarterly_shares s"
  "market_caps (store_market_data rows s) = executemany market_caps_pk rows (market_caps s)"
  "index_composition (store_market_data rows s) = index_composition s"
  "index_performance (store_market_data rows s) = index_performance s"
  by (simp_all add: store_market_data_def)

text \<open>What a completed run on a trading day went through.\<close>

lemma compute_index_value_None:
  assumes "is_trading_day e d"
    and "compute_index_value e d fetch_quarterly_results s = (None, s')"
  shows "\<exists>prices s2 v.
      fetch_closing_prices e (fetch_sp500_stocks e) d = Inr prices
      \<and> index_composition s2 = index_composition s
      \<and> index_performance s2 = index_performance s
      \<and> dump_index_value prices (get_previous_top_100 d s2) (get_top_100_stocks d s2) d s2
          = Inr (v, s')"
proof -
  let ?tickers = "fetch_sp500_stocks e"
  let ?s1 = "if fetch_quarterly_results
             then fetch_and_store_all_quarterly_shares e ?tickers s else s"
  from assms obtain prices where
    p: "fetch_closing_prices e ?tickers d = Inr prices"
    by (cases "fetch_closing_prices e ?tickers d")
       (auto simp: compute_index_value_def Let_def)
  from assms p obtain market_data where
    m: "fetch_market_data prices ?tickers d ?s1 = Inr market_data"
    by (cases "fetch_market_data prices ?tickers d ?s1")
       (auto simp: compute_index_value_def Let_def)
  let ?s2 = "store_market_data market_data ?s1"
  from assms p m obtain v where
    "dump_index_value prices (get_previous_top_100 d ?s2) (get_top_100_stocks d ?s2) d ?s2
       = Inr (v, s')"
    by (cases "dump_index_value prices (get_previous_top_100 d ?s2) (get_top_100_stocks d ?s2) d ?s2")
       (auto simp: compute_index_value_def Let_def split: if_splits)
  moreover have "index_composition ?s2 = index_composition s"
    "index_performance ?s2 = index_performance s"
    by simp_all
  ultimately show ?thesis using p by blast
qed

lemma dump_index_value_tables:
  assumes "dump_index_value prices prev new d s = Inr (v, s')"
  shows "market_caps s' = market_caps s \<and> quarterly_shares s' = quarterly_shares s
    \<and> index_performance s' = insert_or_replace performance_pk (d, v) (index_performance s)"
proof -
  from assms obtain s1 where
    tr: "track_composition_changes prices prev new v d s = Inr s1"
    and s': "s' = store_index_value d v s1"
    by (auto simp: dump_index_value_Inr)
  from tr have "market_caps s1 = market_caps s \<and> quarterly_shares s1 = quarterly_shares s
      \<and> index_performance s1 = index_performance s"
    by (auto simp: track_composition_changes_def Let_def rebalance_index_Inr split: if_splits)
  then show ?thesis by (simp add: s')
qed

lemma insert_or_replace_unique:
  "r \<in> set (insert_or_replace pk x tbl) \<Longrightarrow> pk r = pk x \<Longrightarrow> r = x"
  by (auto simp: insert_or_replace_def)

lemma dump_index_value_first_run:
  assumes "get_previous_top_100 d s = []"
    and "dump_index_value prices (get_previous_top_100 d s) new d s = Inr (v, s')"
  shows "v = 10000 \<and> (\<exists>s1. rebalance_index prices new 10000 d s = Inr s1
      \<and> s' = store_index_value d 10000 s1)"
proof -
  from assms(1) have "fetch_recent_composition d s = []"
    by (simp add: fetch_recent_composition_Nil_iff)
  with assms show ?thesis
    by (auto simp: dump_index_value_Inr track_composition_changes_forced)
qed

text \<open>
  Claim C2, as amended. Let no composition row be dated before d. Then
  dump\_index\_value, given a top-100 list that is not empty and whose tickers have
  non-zero prices, returns 10000, stores 10000 for d and writes for each ticker of the
  list a row dated d with the quantity (1/len * 10000) / price: the rebalance is forced.
  And when compute\_index\_value completes a run for the trading day d, index\_performance
  holds the value 10000 for d and no other value for d, the top-100 list of d is not
  empty, and index\_composition holds for each of its tickers a row dated d with that
  quantity.
\<close>

theorem first_computed_day:
  assumes "\<forall>r \<in> set (index_composition s). \<not> fst r < d"
  shows "(new_top_100 \<noteq> [] \<and> (\<forall>t \<in> set new_top_100. \<exists>p. prices t = Some p \<and> p \<noteq> 0) \<longrightarrow>
        (\<exists>s1. dump_index_value prices (get_previous_top_100 d s) new_top_100 d s
           = Inr (10000, s1)
          \<and> (d, 10000) \<in> set (index_performance s1)
          \<and> (\<forall>r \<in> set (index_performance s1). fst r = d \<longrightarrow> snd r = 10000)
          \<and> (\<forall>t \<in> set new_top_100. \<exists>p. prices t = Some p \<and> p \<noteq> 0 \<and>
                (d, t, (1 / of_nat (length new_top_100) * 10000) / p)
                  \<in> set (index_composition s1))))
    \<and> (is_trading_day e d \<and> compute_index_value e d fetch_quarterly_results s = (None, s') \<longrightarrow>
        (d, 10000) \<in> set (index_performance s')
        \<and> (\<forall>r \<in> set (index_performance s'). fst r = d \<longrightarrow> snd r = 10000)
        \<and> get_top_100_stocks d s' \<noteq> []
        \<and> (\<exists>prices'. fetch_closing_prices e (fetch_sp500_stocks e) d = Inr prices' \<and>
             (\<forall>t \<in> set (get_top_100_stocks d s'). \<exists>p. prices' t = Some p \<and> p \<noteq> 0 \<and>
                (d, t, (1 / of_nat (length (get_top_100_stocks d s')) * 10000) / p)
                  \<in> set (index_composition s'))))"
proof (intro conjI impI)
  from assms have prev: "get_previous_top_100 d s = []"
    by (simp add: no_prior_composition)
  then have recent: "fetch_recent_composition d s = []"
    by (simp add: fetch_recent_composition_Nil_iff)
  {
    assume "new_top_100 \<noteq> [] \<and> (\<forall>t \<in> set new_top_100. \<exists>p. prices t = Some p \<and> p \<noteq> 0)"
    then have "\<exists>rows. index_composition_of prices new_top_100 10000 d = Inr rows"
      using index_composition_of_Inr_iff [of prices new_top_100 10000 d] by blast
    then obtain rows where "index_composition_of prices new_top_100 10000 d = Inr rows" ..
    then have reb: "rebalance_index prices new_top_100 10000 d s
        = Inr (store_new_composition rows s)"
      by (simp add: rebalance_index_def)
    let ?s1 = "store_index_value d 10000 (store_new_composition rows s)"
    have run: "dump_index_value prices (get_previous_top_100 d s) new_top_100 d s
           = Inr (10000, ?s1)"
      using reb by (simp add: dump_index_value_def prev recent track_composition_changes_forced)
    have perf: "(d, 10000) \<in> set (index_performance ?s1)"
      by (simp add: in_insert_or_replace)
    have only: "\<forall>r \<in> set (index_performance ?s1). fst r = d \<longrightarrow> snd r = 10000"
    proof (intro ballI impI)
      fix r assume r: "r \<in> set (index_performance ?s1)" "fst r = d"
      obtain d' x where rx: "r = (d', x)" by (cases r)
      from r have "r = (d, 10000)"
        using insert_or_replace_unique [of r performance_pk "(d, 10000)" "index_performance s"]
        by (simp add: rx)
      then show "snd r = 10000" by simp
    qed
    have rows: "\<forall>t \<in> set new_top_100. \<exists>p. prices t = Some p \<and> p \<noteq> 0 \<and>
        (d, t, (1 / of_nat (length new_top_100) * 10000) / p) \<in> set (index_composition ?s1)"
    proof
      fix t assume t: "t \<in> set new_top_100"
      have ic: "index_composition ?s1 = index_composition (store_new_composition rows s)"
        by simp
      show "\<exists>p. prices t = Some p \<and> p \<noteq> 0 \<and>
        (d, t, (1 / of_nat (length new_top_100) * 10000) / p) \<in> set (index_composition ?s1)"
        unfolding ic by (rule rebalance_index_mem [OF reb t])
    qed
    from run perf only rows
    show "\<exists>s1. dump_index_value prices (get_previous_top_100 d s) new_top_100 d s
           = Inr (10000, s1)
          \<and> (d, 10000) \<in> set (index_performance s1)
          \<and> (\<forall>r \<in> set (index_performance s1). fst r = d \<longrightarrow> snd r = 10000)
          \<and> (\<forall>t \<in> set new_top_100. \<exists>p. prices t = Some p \<and> p \<noteq> 0 \<and>
                (d, t, (1 / of_nat (length new_top_100) * 10000) / p)
                  \<in> set (index_composition s1))"
      by blast
  }
  assume run: "is_trading_day e d \<and> compute_index_value e d fetch_quarterly_results s = (None, s')"
  then obtain prices' s2 v where
    p: "fetch_closing_prices e (fetch_sp500_stocks e) d = Inr prices'"
    and c2: "index_composition s2 = index_composition s"
    and dump: "dump_index_value prices' (get_previous_top_100 d s2) (get_top_100_stocks d s2) d s2
          = Inr (v, s')"
    using compute_index_value_None [of e d fetch_quarterly_results s s'] by blast
  have prev2: "get_previous_top_100 d s2 = []"
    using prev get_previous_top_100_cong [OF c2] by simp
  from dump_index_value_first_run [OF prev2 dump] obtain s1 where
    v: "v = 10000"
    and reb: "rebalance_index prices' (get_top_100_stocks d s2) 10000 d s2 = Inr s1"
    and s': "s' = store_index_value d 10000 s1"
    by blast
  have mc: "market_caps s' = market_caps s2"
    using dump_index_value_tables [OF dump] by simp
  have top: "get_top_100_stocks d s' = get_top_100_stocks d s2"
    by (rule get_top_100_stocks_cong [OF mc])
  show "(d, 10000) \<in> set (index_performance s')"
    by (simp add: s' in_insert_or_replace)
  show "\<forall>r \<in> set (index_performance s'). fst r = d \<longrightarrow> snd r = 10000"
  proof (intro ballI impI)
    fix r assume r: "r \<in> set (index_performance s')" "fst r = d"
    obtain d' x where rx: "r = (d', x)" by (cases r)
    from r have "r = (d, 10000)"
      using insert_or_replace_unique [of r performance_pk "(d, 10000)" "index_performance s1"]
      by (simp add: s' rx)
    then show "snd r = 10000" by simp
  qed
  show "get_top_100_stocks d s' \<noteq> []"
    using rebalance_index_other_tables [OF reb] top by simp
  have "\<forall>t \<in> set (get_top_100_stocks d s'). \<exists>p. prices' t = Some p \<and> p \<noteq> 0 \<and>
      (d, t, (1 / of_nat (length (get_top_100_stocks d s')) * 10000) / p)
        \<in> set (index_composition s')"
  proof
    fix t assume "t \<in> set (get_top_100_stocks d s')"
    then have t: "t \<in> set (get_top_100_stocks d s2)" by (simp add: top)
    have ic: "index_composition s' = index_composition s1" by (simp add: s')
    show "\<exists>p. prices' t = Some p \<and> p \<noteq> 0 \<and>
      (d, t, (1 / of_nat (length (get_top_100_stocks d s')) * 10000) / p)
        \<in> set (index_composition s')"
      unfolding top ic by (rule rebalance_index_mem [OF reb t])
  qed
  with p show "\<exists>prices'. fetch_closing_prices e (fetch_sp500_stocks e) d = Inr prices' \<and>
             (\<forall>t \<in> set (get_top_100_stocks d s'). \<exists>p. prices' t = Some p \<and> p \<noteq> 0 \<and>
                (d, t, (1 / of_nat (length (get_top_100_stocks d s')) * 10000) / p)
                  \<in> set (index_composition s'))"
    by blast
qed

theorem first_computed_day_witness:
  "is_trading_day ex_ext ''D1''
   \<and> compute_index_value ex_ext ''D1'' True empty_db = (None, ex_db_day1)
   \<and> (''D1'', 10000) \<in> set (index_performance ex_db_day1)
   \<and> get_top_100_stocks ''D1'' ex_db_day1 \<noteq> []
   \<and> (\<exists>s1. dump_index_value ex_prices_day2 (get_previous_top_100 ''D1'' empty_db) [''A'', ''C'']
          ''D1'' empty_db = Inr (10000, s1))"
proof -
  have h0: "\<forall>r \<in> set (index_composition empty_db). \<not> fst r < ''D1''"
    by (simp add: empty_db_def)
  have h1: "is_trading_day ex_ext ''D1''"
    by (simp add: is_trading_day_def ex_ext_def)
  have h2: "compute_index_value ex_ext ''D1'' True empty_db = (None, ex_db_day1)"
    by code_simp
  have h3: "[''A'', ''C''] \<noteq> [] \<and> (\<forall>t \<in> set [''A'', ''C'']. \<exists>p. ex_prices_day2 t = Some p \<and> p \<noteq> 0)"
    by (simp add: ex_prices_day2_def)
  note t = first_computed_day [OF h0, of "[''A'', ''C'']" ex_prices_day2 ex_ext True ex_db_day1]
  from t h3 have "\<exists>s1. dump_index_value ex_prices_day2 (get_previous_top_100 ''D1'' empty_db)
      [''A'', ''C''] ''D1'' empty_db = Inr (10000, s1)"
    by blast
  moreover from t h1 h2 have "(''D1'', 10000) \<in> set (index_performance ex_db_day1)"
    and "get_top_100_stocks ''D1'' ex_db_day1 \<noteq> []"
    by blast+
  ultimately show ?thesis using h1 h2 by blast
qed

lemma track_composition_changes_unchanged:
  assumes "prev \<noteq> []" and "set new = set prev"
  shows "track_composition_changes prices prev new v d s = Inr s"
  using assms by (simp add: track_composition_changes_def)

text \<open>
  The claim as stated fails: D1 is a trading day of the example world and the empty
  database has no composition at all, yet the run without the quarterly refresh ends
  with ZeroDivisionError and stores neither an index value nor a composition row,
  because no market cap is known and the forced rebalance divides by the length of an
  empty list.
\<close>

theorem first_computed_day_counterexample:
  "is_trading_day ex_ext ''D1''
   \<and> index_composition empty_db = []
   \<and> compute_index_value ex_ext ''D1'' False empty_db = (Some ZeroDivisionError, empty_db)
   \<and> index_performance empty_db = []"
proof -
  have "is_trading_day ex_ext ''D1''"
    by (simp add: is_trading_day_def ex_ext_def)
  moreover have "compute_index_value ex_ext ''D1'' False empty_db
      = (Some ZeroDivisionError, empty_db)"
    by code_simp
  ultimately show ?thesis by (simp add: empty_db_def)
qed

text \<open>
  Claim C3. Let the tickers of the day's top-100 list be those of the most recent
  snapshot before d. When such a snapshot exists and its tickers are priced,
  dump\_index\_value returns the sum of quantity times price over that snapshot, stores it
  for d and stores nothing else. And when compute\_index\_value completes a run for the
  trading day d, index\_composition is unchanged (no row keyed by d is written), and
  index\_performance holds for d that sum over the unchanged snapshot, and no other
  value for d.
\<close>

theorem unchanged_composition_day:
  "(get_previous_top_100 d s \<noteq> [] \<and> set new_top_100 = set (get_previous_top_100 d s)
      \<and> (\<forall>r \<in> set (fetch_recent_composition d s). prices (fst r) \<noteq> None) \<longrightarrow>
        dump_index_value prices (get_previous_top_100 d s) new_top_100 d s
          = Inr (spec_snapshot_value prices (fetch_recent_composition d s),
                 store_index_value d (spec_snapshot_value prices (fetch_recent_composition d s)) s))
   \<and> (is_trading_day e d \<and> compute_index_value e d fetch_quarterly_results s = (None, s')
      \<and> set (get_top_100_stocks d s') = set (get_previous_top_100 d s) \<longrightarrow>
        index_composition s' = index_composition s
        \<and> fetch_recent_composition d s' = fetch_recent_composition d s
        \<and> (\<exists>prices'. fetch_closing_prices e (fetch_sp500_stocks e) d = Inr prices'
            \<and> (d, spec_snapshot_value prices' (fetch_recent_composition d s))
                 \<in> set (index_performance s')
            \<and> (\<forall>r \<in> set (index_performance s'). fst r = d \<longrightarrow>
                 snd r = spec_snapshot_value prices' (fetch_recent_composition d s))))"
proof (intro conjI impI)
  assume a: "get_previous_top_100 d s \<noteq> [] \<and> set new_top_100 = set (get_previous_top_100 d s)
      \<and> (\<forall>r \<in> set (fetch_recent_composition d s). prices (fst r) \<noteq> None)"
  then have ne: "fetch_recent_composition d s \<noteq> []"
    by (simp add: fetch_recent_composition_Nil_iff)
  from a have "revalue prices (fetch_recent_composition d s) 0
      = Inr (spec_snapshot_value prices (fetch_recent_composition d s))"
    by (simp add: revalue_Inr_iff)
  moreover from a have "track_composition_changes prices (get_previous_top_100 d s) new_top_100
      (spec_snapshot_value prices (fetch_recent_composition d s)) d s = Inr s"
    by (simp add: track_composition_changes_unchanged)
  ultimately show "dump_index_value prices (get_previous_top_100 d s) new_top_100 d s
          = Inr (spec_snapshot_value prices (fetch_recent_composition d s),
                 store_index_value d (spec_snapshot_value prices (fetch_recent_composition d s)) s)"
    using ne by (simp add: dump_index_value_def Let_def)
next
  assume run: "is_trading_day e d \<and> compute_index_value e d fetch_quarterly_results s = (None, s')
      \<and> set (get_top_100_stocks d s') = set (get_previous_top_100 d s)"
  then obtain prices' s2 v where
    p: "fetch_closing_prices e (fetch_sp500_stocks e) d = Inr prices'"
    and c2: "index_composition s2 = index_composition s"
    and dump: "dump_index_value prices' (get_previous_top_100 d s2) (get_top_100_stocks d s2) d s2
          = Inr (v, s')"
    using compute_index_value_None [of e d fetch_quarterly_results s s'] by blast
  have prev2: "get_previous_top_100 d s2 = get_previous_top_100 d s"
    by (rule get_previous_top_100_cong [OF c2])
  have recent2: "fetch_recent_composition d s2 = fetch_recent_composition d s"
    by (rule fetch_recent_composition_cong [OF c2])
  have mc: "market_caps s' = market_caps s2"
    using dump_index_value_tables [OF dump] by simp
  have top: "get_top_100_stocks d s' = get_top_100_stocks d s2"
    by (rule get_top_100_stocks_cong [OF mc])
  from run have sets: "set (get_top_100_stocks d s2) = set (get_previous_top_100 d s2)"
    by (simp add: top prev2)
  have prior: "get_previous_top_100 d s2 \<noteq> []"
  proof
    assume e: "get_previous_top_100 d s2 = []"
    with sets have "get_top_100_stocks d s2 = []" by simp
    with dump_index_value_first_run [OF e dump] show False
      by (simp add: rebalance_index_Nil)
  qed
  then have ne: "fetch_recent_composition d s2 \<noteq> []"
    by (simp add: fetch_recent_composition_Nil_iff)
  from dump obtain s1 where
    rv: "revalue prices' (fetch_recent_composition d s2) 0 = Inr v"
    and tr: "track_composition_changes prices' (get_previous_top_100 d s2)
        (get_top_100_stocks d s2) v d s2 = Inr s1"
    and s': "s' = store_index_value d v s1"
    using ne by (auto simp: dump_index_value_Inr)
  from tr have s1: "s1 = s2"
    by (simp add: track_composition_changes_unchanged [OF prior sets])
  from rv have v: "v = spec_snapshot_value prices' (fetch_recent_composition d s)"
    by (simp add: revalue_Inr_iff recent2)
  show ic: "index_composition s' = index_composition s"
    by (simp add: s' s1 c2)
  show "fetch_recent_composition d s' = fetch_recent_composition d s"
    by (rule fetch_recent_composition_cong [OF ic])
  have "(d, v) \<in> set (index_performance s')"
    by (simp add: s' in_insert_or_replace)
  moreover have "\<forall>r \<in> set (index_performance s'). fst r = d \<longrightarrow> snd r = v"
  proof (intro ballI impI)
    fix r assume r: "r \<in> set (index_performance s')" "fst r = d"
    obtain d' x where rx: "r = (d', x)" by (cases r)
    from r have "r = (d, v)"
      using insert_or_replace_unique [of r performance_pk "(d, v)" "index_performance s1"]
      by (simp add: s' rx)
    then show "snd r = v" by simp
  qed
  ultimately show "\<exists>prices'. fetch_closing_prices e (fetch_sp500_stocks e) d = Inr prices'
            \<and> (d, spec_snapshot_value prices' (fetch_recent_composition d s))
                 \<in> set (index_performance s')
            \<and> (\<forall>r \<in> set (index_performance s'). fst r = d \<longrightarrow>
                 snd r = spec_snapshot_value prices' (fetch_recent_composition d s))"
    using p unfolding v by blast
qed

theorem unchanged_composition_day_witness:
  "is_trading_day ex_ext ''D2''
   \<and> compute_index_value ex_ext ''D2'' False ex_db_day1 = (None, ex_db_day2)
   \<and> set (get_top_100_stocks ''D2'' ex_db_day2) = set (get_previous_top_100 ''D2'' ex_db_day1)
   \<and> index_composition ex_db_day2 = index_composition ex_db_day1
   \<and> spec_snapshot_value [''A'' \<mapsto> 3, ''B-B'' \<mapsto> 4] (fetch_recent_composition ''D2'' ex_db_day1) = 12500
   \<and> dump_index_value [''A'' \<mapsto> 3, ''B-B'' \<mapsto> 4] (get_previous_top_100 ''D2'' ex_db_day1)
        [''B-B'', ''A''] ''D2'' ex_db_day1
      = Inr (12500, store_index_value ''D2'' 12500 ex_db_day1)"
proof -
  have h1: "is_trading_day ex_ext ''D2''"
    by (simp add: is_trading_day_def ex_ext_def)
  have h2: "compute_index_value ex_ext ''D2'' False ex_db_day1 = (None, ex_db_day2)"
    by code_simp
  have h3: "set (get_top_100_stocks ''D2'' ex_db_day2) = set (get_previous_top_100 ''D2'' ex_db_day1)"
    by code_simp
  have prev: "get_previous_top_100 ''D2'' ex_db_day1 = [''A'', ''B-B'']"
    by code_simp
  have recent: "fetch_recent_composition ''D2'' ex_db_day1 = [(''A'', 2500), (''B-B'', 1250)]"
    by code_simp
  have val: "spec_snapshot_value [''A'' \<mapsto> 3, ''B-B'' \<mapsto> 4] [(''A'', 2500), (''B-B'', 1250)] = 12500"
    by (simp add: spec_snapshot_value_def)
  have h4: "get_previous_top_100 ''D2'' ex_db_day1 \<noteq> []
      \<and> set [''B-B'', ''A''] = set (get_previous_top_100 ''D2'' ex_db_day1)
      \<and> (\<forall>r \<in> set (fetch_recent_composition ''D2'' ex_db_day1).
            [''A'' \<mapsto> 3, ''B-B'' \<mapsto> (4::rat)] (fst r) \<noteq> None)"
    unfolding prev recent by auto
  note t = unchanged_composition_day [of "''D2''" ex_db_day1 "[''B-B'', ''A'']"
      "[''A'' \<mapsto> 3, ''B-B'' \<mapsto> 4]" ex_ext False ex_db_day2]
  from t h1 h2 h3 have "index_composition ex_db_day2 = index_composition ex_db_day1"
    by blast
  moreover from t h4 have
    "dump_index_value [''A'' \<mapsto> 3, ''B-B'' \<mapsto> 4] (get_previous_top_100 ''D2'' ex_db_day1)
        [''B-B'', ''A''] ''D2'' ex_db_day1
      = Inr (spec_snapshot_value [''A'' \<mapsto> 3, ''B-B'' \<mapsto> 4] (fetch_recent_composition ''D2'' ex_db_day1),
          store_index_value ''D2''
            (spec_snapshot_value [''A'' \<mapsto> 3, ''B-B'' \<mapsto> 4] (fetch_recent_composition ''D2'' ex_db_day1))
            ex_db_day1)"
    by blast
  ultimately show ?thesis
    using h1 h2 h3 val by (simp add: recent)
qed

section \<open>The top-100 query\<close>

lemma sorted_take_drop_le:
  assumes "sorted (map f xs)" and "x \<in> set (take n xs)" and "y \<in> set (drop n xs)"
  shows "f x \<le> f y"
proof -
  have "sorted (map f (take n xs) @ map f (drop n xs))"
    using assms(1) by (simp add: map_append [symmetric] del: map_append)
  then show ?thesis
    using assms(2,3) by (auto simp: sorted_append)
qed

lemma top_100_rows:
  fixes d :: date and s :: db
  defines "rows \<equiv> filter (\<lambda>(d', t, sh, c, m). d' = d) (market_caps s)"
  defines "best \<equiv> take 100 (sort_key (\<lambda>(d', t, sh, c, m). - m) rows)"
  assumes pk: "distinct (map market_caps_pk (market_caps s))"
  shows "get_top_100_stocks d s = sort (map (\<lambda>(d', t, sh, c, m). t) best)"
    and "distinct (map (\<lambda>(d', t, sh, c, m). t) best)"
    and "set best \<subseteq> set rows"
    and "\<And>x y. x \<in> set best \<Longrightarrow> y \<in> set rows \<Longrightarrow> y \<notin> set best \<Longrightarrow>
           (case y of (d', t, sh, c, m) \<Rightarrow> m) \<le> (case x of (d', t, sh, c, m) \<Rightarrow> m)"
    and "inj_on (\<lambda>(d', t, sh, c, m). t) (set rows)"
    and "length best = min 100 (length rows)"
proof -
  let ?tk = "\<lambda>(d', t, sh, c, m). t :: ticker"
  let ?key = "\<lambda>(d' :: date, t :: ticker, sh :: rat, c :: rat, m :: rat). - m"
  let ?srt = "sort_key ?key rows"
  show "get_top_100_stocks d s = sort (map ?tk best)"
    by (simp add: get_top_100_stocks_def best_def rows_def)
  have "distinct (map market_caps_pk rows)"
    unfolding rows_def using pk by (rule distinct_map_filter)
  then have drows: "distinct rows" and inj_pk: "inj_on market_caps_pk (set rows)"
    by (simp_all add: distinct_map)
  have dates: "\<forall>r \<in> set rows. fst r = d"
    by (auto simp: rows_def)
  show inj: "inj_on ?tk (set rows)"
  proof (rule inj_onI)
    fix x y assume xy: "x \<in> set rows" "y \<in> set rows" "?tk x = ?tk y"
    obtain d1 t1 sh1 c1 m1 where x: "x = (d1, t1, sh1, c1, m1)" by (cases x)
    obtain d2 t2 sh2 c2 m2 where y: "y = (d2, t2, sh2, c2, m2)" by (cases y)
    from dates xy have "fst x = d" "fst y = d" by blast+
    with xy(3) have "market_caps_pk x = market_caps_pk y"
      by (simp add: x y)
    with inj_pk xy show "x = y" by (auto dest: inj_onD)
  qed
  show sub: "set best \<subseteq> set rows"
    unfolding best_def using set_take_subset [of 100 ?srt] by simp
  have "distinct best"
    unfolding best_def using drows by simp
  moreover have "inj_on ?tk (set best)"
    using inj sub by (rule inj_on_subset)
  ultimately show "distinct (map ?tk best)"
    by (simp add: distinct_map)
  show "length best = min 100 (length rows)"
    by (simp add: best_def min.commute)
  fix x y assume x: "x \<in> set best" and y: "y \<in> set rows" "y \<notin> set best"
  have "set ?srt = set (take 100 ?srt) \<union> set (drop 100 ?srt)"
    by (metis append_take_drop_id set_append)
  with y have "y \<in> set (drop 100 ?srt)"
    by (simp add: best_def)
  moreover have "sorted (map ?key ?srt)" by (rule sorted_sort_key)
  ultimately have "?key x \<le> ?key y"
    using x unfolding best_def by (intro sorted_take_drop_le [of ?key ?srt x 100 y])
  moreover obtain d1 t1 sh1 c1 m1 where "x = (d1, t1, sh1, c1, m1)" by (cases x)
  moreover obtain d2 t2 sh2 c2 m2 where "y = (d2, t2, sh2, c2, m2)" by (cases y)
  ultimately show "(case y of (d', t, sh, c, m) \<Rightarrow> m) \<le> (case x of (d', t, sh, c, m) \<Rightarrow> m)"
    by simp
qed

text \<open>
  Claim C5, as amended. With (date, ticker) the primary key of market\_caps, the list
  that get\_top\_100\_stocks returns for a date is in ascending order of ticker and
  without repetition; its length is 100, or the number of rows of the date when that
  is smaller; each ticker in it has a row for the date; and no row of the date that was
  left out has a larger market\_cap than a row that was taken.
\<close>

theorem top_100_query:
  assumes "distinct (map market_caps_pk (market_caps s))"
  shows "sorted (get_top_100_stocks d s) \<and> distinct (get_top_100_stocks d s)
    \<and> length (get_top_100_stocks d s)
        = min 100 (length (filter (\<lambda>(d', t, sh, c, m). d' = d) (market_caps s)))
    \<and> (\<forall>t \<in> set (get_top_100_stocks d s). \<exists>sh c m. (d, t, sh, c, m) \<in> set (market_caps s))
    \<and> (\<forall>t1 sh1 c1 m1 t2 sh2 c2 m2.
          (d, t1, sh1, c1, m1) \<in> set (market_caps s) \<and> (d, t2, sh2, c2, m2) \<in> set (market_caps s)
          \<and> t1 \<in> set (get_top_100_stocks d s) \<and> t2 \<notin> set (get_top_100_stocks d s)
          \<longrightarrow> m2 \<le> m1)"
proof -
  let ?tk = "\<lambda>(d' :: date, t :: ticker, sh :: rat, c :: rat, m :: rat). t"
  let ?rows = "filter (\<lambda>(d', t, sh, c, m). d' = d) (market_caps s)"
  let ?best = "take 100 (sort_key (\<lambda>(d', t, sh, c, m). - m) ?rows)"
  note r = top_100_rows [OF assms, where d = d]
  have res: "get_top_100_stocks d s = sort (map ?tk ?best)" by (rule r(1))
  have set_res: "set (get_top_100_stocks d s) = ?tk ` set ?best"
    by (simp add: res)
  have a: "sorted (get_top_100_stocks d s)"
    unfolding res by (rule sorted_sort)
  have b: "distinct (get_top_100_stocks d s)"
    unfolding res using r(2) by simp
  have c: "length (get_top_100_stocks d s) = min 100 (length ?rows)"
    unfolding res using r(6) by simp
  have e: "\<exists>sh c m. (d, t, sh, c, m) \<in> set (market_caps s)"
    if "t \<in> set (get_top_100_stocks d s)" for t
  proof -
    from that obtain x where x: "x \<in> set ?best" "?tk x = t"
      unfolding set_res by blast
    obtain d1 t1 sh1 c1 m1 where x': "x = (d1, t1, sh1, c1, m1)" by (cases x)
    from x(1) r(3) have "x \<in> set ?rows" by blast
    with x(2) show ?thesis by (auto simp: x')
  qed
  have f: "m2 \<le> m1"
    if h: "(d, t1, sh1, c1, m1) \<in> set (market_caps s)" "(d, t2, sh2, c2, m2) \<in> set (market_caps s)"
      "t1 \<in> set (get_top_100_stocks d s)" "t2 \<notin> set (get_top_100_stocks d s)"
    for t1 sh1 c1 m1 t2 sh2 c2 m2
  proof -
    from h(1,2) have rows: "(d, t1, sh1, c1, m1) \<in> set ?rows" "(d, t2, sh2, c2, m2) \<in> set ?rows"
      by simp_all
    from h(3) obtain x where x: "x \<in> set ?best" "?tk x = t1"
      unfolding set_res by blast
    from x(1) r(3) have xin: "x \<in> set ?rows" by blast
    have eq: "?tk x = ?tk (d, t1, sh1, c1, m1)" using x(2) by simp
    have "x = (d, t1, sh1, c1, m1)"
      by (rule inj_onD [OF r(5) eq xin rows(1)])
    with x(1) have in1: "(d, t1, sh1, c1, m1) \<in> set ?best" by simp
    have out2: "(d, t2, sh2, c2, m2) \<notin> set ?best"
    proof
      assume "(d, t2, sh2, c2, m2) \<in> set ?best"
      then have "?tk (d, t2, sh2, c2, m2) \<in> ?tk ` set ?best" by (rule imageI)
      with h(4) show False by (simp add: set_res)
    qed
    from r(4) [OF in1 rows(2) out2] show ?thesis by simp
  qed
  show ?thesis
    using a b c e f by blast
qed

theorem top_100_query_witness:
  "distinct (map market_caps_pk (market_caps ex_db_caps))
   \<and> get_top_100_stocks ''D1'' ex_db_caps = [''A'', ''B'']
   \<and> sorted (get_top_100_stocks ''D1'' ex_db_caps)
   \<and> length (get_top_100_stocks ''D1'' ex_db_caps) = 2"
proof -
  have h: "distinct (map market_caps_pk (market_caps ex_db_caps))"
    by (simp add: ex_db_caps_def)
  have v: "get_top_100_stocks ''D1'' ex_db_caps = [''A'', ''B'']"
    by code_simp
  have n: "min 100 (length (filter (\<lambda>(d', t, sh, c, m). d' = ''D1'') (market_caps ex_db_caps))) = 2"
    by (simp add: ex_db_caps_def)
  from top_100_query [OF h, of "''D1''"] have
    "sorted (get_top_100_stocks ''D1'' ex_db_caps)"
    and "length (get_top_100_stocks ''D1'' ex_db_caps)
        = min 100 (length (filter (\<lambda>(d', t, sh, c, m). d' = ''D1'') (market_caps ex_db_caps)))"
    by blast+
  with h v n show ?thesis by simp
qed

text \<open>
  The claim as stated fails: B has the larger market cap, so the order of the claim is
  B before A, while the query returns A before B.
\<close>

theorem top_100_query_counterexample:
  "get_top_100_stocks ''D1'' ex_db_caps = [''A'', ''B'']
   \<and> spec_top100ByMarketCap ''D1'' ex_db_caps = [''B'', ''A'']"
  by (simp add: get_top_100_stocks_def spec_top100ByMarketCap_def ex_db_caps_def empty_db_def)

section \<open>Running a date again\<close>

lemma rows_of_max_date_before_filter:
  "rows_of_max_date_before d (filter (\<lambda>r. fst r < d) tbl) = rows_of_max_date_before d tbl"
proof (cases "max_date_before d tbl")
  case None
  then show ?thesis
    by (simp add: rows_of_max_date_before_def max_date_before_def)
next
  case (Some m)
  then have "m \<in> set (map fst (filter (\<lambda>r. fst r < d) tbl))"
    unfolding max_date_before_def sql_max_eq_Some
    by (metis List.finite_set Max_in set_empty2)
  then have "m < d" by auto
  then have "filter (\<lambda>r. fst r = m) (filter (\<lambda>r. fst r < d) tbl) = filter (\<lambda>r. fst r = m) tbl"
    by (auto intro: filter_cong)
  with Some show ?thesis
    by (simp add: rows_of_max_date_before_def max_date_before_def)
qed

lemma rows_of_max_date_before_cong:
  assumes "filter (\<lambda>r. fst r < d) tbl = filter (\<lambda>r. fst r < d) tbl'"
  shows "rows_of_max_date_before d tbl = rows_of_max_date_before d tbl'"
  using rows_of_max_date_before_filter [of d tbl] rows_of_max_date_before_filter [of d tbl'] assms
  by simp

lemma composition_before_executemany:
  assumes "\<forall>r \<in> set rows. fst r = d"
  shows "filter (\<lambda>r. fst r < d) (executemany composition_pk rows tbl) = filter (\<lambda>r. fst r < d) tbl"
proof (rule filter_executemany_other)
  show "\<forall>r \<in> set rows. \<not> fst r < d" using assms by simp
  show "\<forall>x y. composition_pk x = composition_pk y \<longrightarrow> (fst x < d) = (fst y < d)"
  proof (intro allI impI)
    fix x y :: composition_row
    assume e: "composition_pk x = composition_pk y"
    obtain d1 t1 q1 where x: "x = (d1, t1, q1)" by (cases x)
    obtain d2 t2 q2 where y: "y = (d2, t2, q2)" by (cases y)
    from e show "(fst x < d) = (fst y < d)" by (simp add: x y)
  qed
qed

lemma index_composition_of_dates:
  assumes "index_composition_of prices new v d = Inr rows"
  shows "\<forall>r \<in> set rows. fst r = d"
proof -
  from assms have "composition_loop prices d (1 / of_nat (length new)) v new = Inr rows"
    by (auto simp: index_composition_of_def split: if_splits)
  from composition_loop_rows [OF this] show ?thesis
    by (auto simp: list_all_iff)
qed

lemma track_composition_changes_Inr:
  "track_composition_changes prices prev new v d s = Inr s1 \<longleftrightarrow>
     (if set prev - set new \<noteq> {} \<or> prev = []
      then \<exists>rows. index_composition_of prices new v d = Inr rows
             \<and> s1 = store_new_composition rows s
      else s1 = s)"
  by (auto simp: track_composition_changes_def rebalance_index_Inr)

lemma track_composition_changes_before:
  assumes "track_composition_changes prices prev new v d s = Inr s1"
  shows "filter (\<lambda>r. fst r < d) (index_composition s1)
       = filter (\<lambda>r. fst r < d) (index_composition s)"
  using assms
  by (auto simp: track_composition_changes_Inr composition_before_executemany
      index_composition_of_dates split: if_splits)

lemma track_composition_changes_idem:
  assumes "track_composition_changes prices prev new v d s = Inr s1"
  shows "track_composition_changes prices prev new v d s1 = Inr s1"
proof (cases "set prev - set new \<noteq> {} \<or> prev = []")
  case True
  with assms obtain rows where
    rows: "index_composition_of prices new v d = Inr rows"
    and s1: "s1 = store_new_composition rows s"
    by (auto simp: track_composition_changes_Inr)
  have "store_new_composition rows s1 = s1"
    by (simp add: s1 store_new_composition_def executemany_idem)
  with True rows show ?thesis
    by (simp add: track_composition_changes_Inr)
next
  case False
  with assms show ?thesis
    by (simp add: track_composition_changes_Inr)
qed

lemma store_index_value_idem:
  "store_index_value d v (store_index_value d v s) = store_index_value d v s"
  by (simp add: store_index_value_def insert_or_replace_idem)

lemma track_composition_changes_store_index_value:
  "track_composition_changes prices prev new v d s = Inr s1 \<Longrightarrow>
   track_composition_changes prices prev new v d (store_index_value d' v' s)
     = Inr (store_index_value d' v' s1)"
  by (auto simp: track_composition_changes_Inr store_index_value_def store_new_composition_def
      split: if_splits)

lemma dump_index_value_before:
  assumes "dump_index_value prices prev new d s = Inr (v, s')"
  shows "filter (\<lambda>r. fst r < d) (index_composition s')
       = filter (\<lambda>r. fst r < d) (index_composition s)"
proof -
  from assms obtain s1 where
    tr: "track_composition_changes prices prev new v d s = Inr s1"
    and s': "s' = store_index_value d v s1"
    by (auto simp: dump_index_value_Inr)
  from track_composition_changes_before [OF tr] show ?thesis by (simp add: s')
qed

lemma dump_index_value_lookups:
  assumes "dump_index_value prices prev new d s = Inr (v, s')"
  shows "fetch_recent_composition d s' = fetch_recent_composition d s"
    and "get_previous_top_100 d s' = get_previous_top_100 d s"
  using rows_of_max_date_before_cong [OF dump_index_value_before [OF assms]]
  by (simp_all add: fetch_recent_composition_def get_previous_top_100_def)

lemma dump_index_value_idem:
  assumes "dump_index_value prices prev new d s = Inr (v, s')"
  shows "dump_index_value prices prev new d s' = Inr (v, s')"
proof -
  from assms obtain s1 where
    val: "(if fetch_recent_composition d s \<noteq> []
      then revalue prices (fetch_recent_composition d s) 0 else Inr 10000) = Inr v"
    and tr: "track_composition_changes prices prev new v d s = Inr s1"
    and s': "s' = store_index_value d v s1"
    by (auto simp: dump_index_value_Inr)
  have recent: "fetch_recent_composition d s' = fetch_recent_composition d s"
    by (rule dump_index_value_lookups [OF assms])
  have "track_composition_changes prices prev new v d s1 = Inr s1"
    by (rule track_composition_changes_idem [OF tr])
  then have "track_composition_changes prices prev new v d s' = Inr s'"
    unfolding s' by (rule track_composition_changes_store_index_value)
  moreover have "store_index_value d v s' = s'"
    by (simp add: s' store_index_value_idem)
  ultimately show ?thesis
    using val by (auto simp: dump_index_value_Inr recent split: if_splits)
qed

lemma fetch_market_data_cong:
  assumes "quarterly_shares s = quarterly_shares s'"
  shows "fetch_market_data prices tickers d s = fetch_market_data prices tickers d s'"
  unfolding fetch_market_data_def fetch_outstanding_shares_def assms ..

lemma fetch_and_store_all_quarterly_shares_idem:
  assumes "quarterly_shares s1 = quarterly_shares (fetch_and_store_all_quarterly_shares e tickers s)"
  shows "fetch_and_store_all_quarterly_shares e tickers s1 = s1"
proof (cases "concat (map (fetch_quarterly_shares e) tickers) = []")
  case True
  then show ?thesis by (simp add: fetch_and_store_all_quarterly_shares_def)
next
  case False
  with assms have "quarterly_shares s1 =
      executemany shares_pk (concat (map (fetch_quarterly_shares e) tickers)) (quarterly_shares s)"
    by (simp add: fetch_and_store_all_quarterly_shares_def store_quarterly_shares_def)
  then have "executemany shares_pk (concat (map (fetch_quarterly_shares e) tickers))
      (quarterly_shares s1) = quarterly_shares s1"
    by (simp add: executemany_idem)
  with False show ?thesis
    by (simp add: fetch_and_store_all_quarterly_shares_def store_quarterly_shares_def)
qed

lemma store_market_data_idem:
  assumes "market_caps s1 = market_caps (store_market_data market_data s)"
  shows "store_market_data market_data s1 = s1"
proof -
  from assms have "executemany market_caps_pk market_data (market_caps s1) = market_caps s1"
    by (simp add: executemany_idem)
  then show ?thesis by (simp add: store_market_data_def)
qed

text \<open>
  Claim C4. When compute\_index\_value has completed a run for a date, running it again
  for that date in the same outside world, on the database the first run left,
  completes too and leaves that database as it is: every table has the same rows. The
  lookups of the latest composition before the date give in the second run what they
  gave in the first; the rows written for the date itself are not seen by them.
\<close>

theorem rerun_is_idempotent:
  assumes "compute_index_value e d fetch_quarterly_results s = (None, s1)"
  shows "compute_index_value e d fetch_quarterly_results s1 = (None, s1)
    \<and> get_previous_top_100 d s1 = get_previous_top_100 d s
    \<and> fetch_recent_composition d s1 = fetch_recent_composition d s"
proof (cases "is_trading_day e d")
  case False
  with assms have "s1 = s" by (simp add: compute_index_value_def)
  with False show ?thesis by (simp add: compute_index_value_def)
next
  case True
  let ?tickers = "fetch_sp500_stocks e"
  let ?sA = "if fetch_quarterly_results
             then fetch_and_store_all_quarterly_shares e ?tickers s else s"
  from assms True obtain prices where
    p: "fetch_closing_prices e ?tickers d = Inr prices"
    by (cases "fetch_closing_prices e ?tickers d")
       (auto simp: compute_index_value_def Let_def)
  from assms True p obtain market_data where
    m: "fetch_market_data prices ?tickers d ?sA = Inr market_data"
    by (cases "fetch_market_data prices ?tickers d ?sA")
       (auto simp: compute_index_value_def Let_def)
  let ?s2 = "store_market_data market_data ?sA"
  from assms True p m obtain v where
    dump: "dump_index_value prices (get_previous_top_100 d ?s2) (get_top_100_stocks d ?s2) d ?s2
       = Inr (v, s1)"
    by (cases "dump_index_value prices (get_previous_top_100 d ?s2) (get_top_100_stocks d ?s2) d ?s2")
       (auto simp: compute_index_value_def Let_def split: if_splits)
  note tables = dump_index_value_tables [OF dump]
  have qs: "quarterly_shares s1 = quarterly_shares ?sA"
    using tables by simp
  have sA: "(if fetch_quarterly_results
             then fetch_and_store_all_quarterly_shares e ?tickers s1 else s1) = s1"
    using qs by (simp add: fetch_and_store_all_quarterly_shares_idem)
  have m1: "fetch_market_data prices ?tickers d s1 = Inr market_data"
    using fetch_market_data_cong [OF qs] m by simp
  have s2: "store_market_data market_data s1 = s1"
    using tables by (intro store_market_data_idem [of s1 market_data ?sA]) simp
  have top: "get_top_100_stocks d s1 = get_top_100_stocks d ?s2"
    using tables by (intro get_top_100_stocks_cong) simp
  have prev: "get_previous_top_100 d s1 = get_previous_top_100 d ?s2"
    and recent: "fetch_recent_composition d s1 = fetch_recent_composition d ?s2"
    by (rule dump_index_value_lookups [OF dump])+
  have c2: "index_composition ?s2 = index_composition s" by simp
  have "dump_index_value prices (get_previous_top_100 d s1) (get_top_100_stocks d s1) d s1
       = Inr (v, s1)"
    unfolding top prev by (rule dump_index_value_idem [OF dump])
  then have "compute_index_value e d fetch_quarterly_results s1 = (None, s1)"
    using True p by (simp add: compute_index_value_def Let_def sA m1 s2)
  moreover have "get_previous_top_100 d s1 = get_previous_top_100 d s"
    unfolding prev by (rule get_previous_top_100_cong [OF c2])
  moreover have "fetch_recent_composition d s1 = fetch_recent_composition d s"
    unfolding recent by (rule fetch_recent_composition_cong [OF c2])
  ultimately show ?thesis by simp
qed

theorem rerun_is_idempotent_witness:
  "compute_index_value ex_ext ''D1'' True empty_db = (None, ex_db_day1)
   \<and> compute_index_value ex_ext ''D1'' True ex_db_day1 = (None, ex_db_day1)
   \<and> get_previous_top_100 ''D1'' ex_db_day1 = get_previous_top_100 ''D1'' empty_db"
proof -
  have h: "compute_index_value ex_ext ''D1'' True empty_db = (None, ex_db_day1)"
    by code_simp
  from rerun_is_idempotent [OF h] h show ?thesis by simp
qed

section \<open>Primary keys are kept\<close>

lemma distinct_insert_or_replace:
  "distinct (map pk tbl) \<Longrightarrow> distinct (map pk (insert_or_replace pk r tbl))"
  by (auto simp: insert_or_replace_def distinct_map_filter)

lemma distinct_executemany:
  "distinct (map pk tbl) \<Longrightarrow> distinct (map pk (executemany pk rows tbl))"
  by (induction rows rule: rev_induct)
     (simp_all add: executemany_Nil executemany_snoc distinct_insert_or_replace)

lemma primary_keys_store_quarterly_shares:
  "primary_keys s \<Longrightarrow> primary_keys (fetch_and_store_all_quarterly_shares e tickers s)"
  by (simp add: primary_keys_def fetch_and_store_all_quarterly_shares_def Let_def
      store_quarterly_shares_def distinct_executemany)

lemma primary_keys_store_market_data:
  "primary_keys s \<Longrightarrow> primary_keys (store_market_data rows s)"
  by (simp add: primary_keys_def distinct_executemany)

lemma primary_keys_dump_index_value:
  assumes "primary_keys s" and "dump_index_value prices prev new d s = Inr (v, s')"
  shows "primary_keys s'"
proof -
  from assms(2) obtain s1 where
    tr: "track_composition_changes prices prev new v d s = Inr s1"
    and s': "s' = store_index_value d v s1"
    by (auto simp: dump_index_value_Inr)
  from tr assms(1) have "primary_keys s1"
    by (auto simp: track_composition_changes_Inr primary_keys_def distinct_executemany
        split: if_splits)
  then show ?thesis
    by (simp add: s' primary_keys_def distinct_insert_or_replace)
qed

lemma primary_keys_compute_index_value:
  assumes "primary_keys s"
  shows "primary_keys (snd (compute_index_value e d fetch_quarterly_results s))"
proof -
  let ?tickers = "fetch_sp500_stocks e"
  let ?sA = "if fetch_quarterly_results
             then fetch_and_store_all_quarterly_shares e ?tickers s else s"
  have sA: "primary_keys ?sA"
    using assms by (simp add: primary_keys_store_quarterly_shares)
  then have s2: "primary_keys (store_market_data market_data ?sA)" for market_data
    by (rule primary_keys_store_market_data)
  show ?thesis
    using assms sA s2 primary_keys_dump_index_value [OF s2]
    by (auto simp: compute_index_value_def Let_def split: sum.splits prod.splits)
qed

section \<open>The market-cap rows of a day\<close>

text \<open>The dict of shares has every ticker of the loop as a key: no KeyError.\<close>

lemma market_data_loop_total:
  "\<forall>t \<in> set ts. shares_info t \<noteq> None \<Longrightarrow>
     \<exists>rows. market_data_loop prices shares_info d ts = Inr rows"
proof (induction ts)
  case Nil
  show ?case by simp
next
  case (Cons t ts)
  then obtain fetched rest where "shares_info t = Some fetched"
    and "market_data_loop prices shares_info d ts = Inr rest"
    by auto
  then show ?case
    by (cases fetched; cases "prices t") simp_all
qed

lemma fetch_market_data_total:
  "\<exists>market_data. fetch_market_data prices tickers d s = Inr market_data"
  unfolding fetch_market_data_def
  by (rule market_data_loop_total) (simp add: fetch_outstanding_shares_def)

lemma market_data_loop_rows:
  "market_data_loop prices shares_info d ts = Inr rows \<Longrightarrow>
     (d', t, sh, c, m) \<in> set rows \<Longrightarrow>
     d' = d \<and> t \<in> set ts \<and> shares_info t = Some (Some sh) \<and> prices t = Some c \<and> m = c * sh"
proof (induction ts arbitrary: rows)
  case Nil
  then show ?case by simp
next
  case (Cons x ts)
  then show ?case
    by (auto split: option.splits sum.splits)
qed

section \<open>When the rebalance fails\<close>

lemma composition_loop_first_missing:
  assumes "\<forall>u \<in> set pre. \<exists>p. prices u = Some p \<and> p \<noteq> 0" and "prices t = None"
  shows "composition_loop prices d w v (pre @ t # post) = Inl KeyError"
  using assms by (induction pre) auto

lemma composition_loop_first_zero:
  assumes "\<forall>u \<in> set pre. \<exists>p. prices u = Some p \<and> p \<noteq> 0" and "prices t = Some 0"
  shows "composition_loop prices d w v (pre @ t # post) = Inl ZeroDivisionError"
  using assms by (induction pre) auto

lemma composition_loop_error:
  "composition_loop prices d w v ts = Inl err \<Longrightarrow> err = ZeroDivisionError \<or> err = KeyError"
  by (induction ts) (auto split: option.splits if_splits sum.splits)

lemma rebalance_index_Inl:
  "rebalance_index prices new v d s = Inl err \<longleftrightarrow> index_composition_of prices new v d = Inl err"
  by (auto simp: rebalance_index_def split: sum.splits)

lemma rebalance_index_error:
  assumes "rebalance_index prices new v d s = Inl err"
  shows "err = ZeroDivisionError \<or> err = KeyError"
  using assms composition_loop_error [of prices d "1 / of_nat (length new)" v new err]
  by (auto simp: rebalance_index_Inl index_composition_of_def split: if_splits)

lemma rebalance_index_first_missing:
  assumes "\<forall>u \<in> set pre. \<exists>p. prices u = Some p \<and> p \<noteq> 0" and "prices t = None"
  shows "rebalance_index prices (pre @ t # post) v d s = Inl KeyError"
  using composition_loop_first_missing [OF assms]
  by (simp add: rebalance_index_def index_composition_of_def)

lemma rebalance_index_first_zero:
  assumes "\<forall>u \<in> set pre. \<exists>p. prices u = Some p \<and> p \<noteq> 0" and "prices t = Some 0"
  shows "rebalance_index prices (pre @ t # post) v d s = Inl ZeroDivisionError"
  using composition_loop_first_zero [OF assms]
  by (simp add: rebalance_index_def index_composition_of_def)

lemma get_top_100_stocks_Nil:
  assumes "\<forall>r \<in> set (market_caps s). fst r \<noteq> d"
  shows "get_top_100_stocks d s = []"
proof -
  have "filter (\<lambda>(d', t, sh, c, m). d' = d) (market_caps s) = []"
    using assms by (auto simp: filter_empty_conv)
  then show ?thesis by (simp add: get_top_100_stocks_def)
qed

text \<open>
  A run on a trading day whose prices were fetched, with no composition dated before
  the date and no market-cap row of the date once the rows of the day are stored.
\<close>

lemma first_run_without_market_caps:
  assumes td: "is_trading_day e d"
    and p: "fetch_closing_prices e (fetch_sp500_stocks e) d = Inr prices"
    and m: "fetch_market_data prices (fetch_sp500_stocks e) d
              (if fetch_quarterly_results
               then fetch_and_store_all_quarterly_shares e (fetch_sp500_stocks e) s else s)
            = Inr market_data"
    and caps: "\<forall>r \<in> set (market_caps (store_market_data market_data
              (if fetch_quarterly_results
               then fetch_and_store_all_quarterly_shares e (fetch_sp500_stocks e) s else s))).
            fst r \<noteq> d"
    and first: "\<forall>r \<in> set (index_composition s). \<not> fst r < d"
  shows "fst (compute_index_value e d fetch_quarterly_results s) = Some ZeroDivisionError
    \<and> index_composition (snd (compute_index_value e d fetch_quarterly_results s))
        = index_composition s
    \<and> index_performance (snd (compute_index_value e d fetch_quarterly_results s))
        = index_performance s"
proof -
  let ?sA = "if fetch_quarterly_results
             then fetch_and_store_all_quarterly_shares e (fetch_sp500_stocks e) s else s"
  let ?s2 = "store_market_data market_data ?sA"
  have c2: "index_composition ?s2 = index_composition s"
    and p2: "index_performance ?s2 = index_performance s"
    by simp_all
  have top: "get_top_100_stocks d ?s2 = []"
    using caps by (rule get_top_100_stocks_Nil)
  from first have "\<forall>r \<in> set (index_composition ?s2). \<not> fst r < d"
    by (simp only: c2)
  then have "dump_index_value prices (get_previous_top_100 d ?s2) [] d ?s2
      = Inl ZeroDivisionError"
    by (rule first_run_empty_top_100)
  then have "dump_index_value prices (get_previous_top_100 d ?s2) (get_top_100_stocks d ?s2) d ?s2
      = Inl ZeroDivisionError"
    by (simp only: top)
  then have "compute_index_value e d fetch_quarterly_results s = (Some ZeroDivisionError, ?s2)"
    using td p m by (simp add: compute_index_value_def Let_def)
  then show ?thesis
    using c2 p2 by simp
qed

text \<open>
  Claim C10, as amended. rebalance\_index succeeds exactly when new\_top\_100 is not empty
  and every ticker of it has a price that is not zero. On the empty list it raises
  ZeroDivisionError. On a list that is not empty, the first ticker without a non-zero
  price decides: KeyError when it has no price, ZeroDivisionError when its price is
  zero; no other exception is raised. The rebalance is forced when there is no
  composition before the date, so dump\_index\_value then raises ZeroDivisionError on an
  empty top-100 list, and a run on a trading day whose prices were fetched, with no
  composition before the date and no market-cap row of the date after the rows of the
  day are stored, ends with ZeroDivisionError and leaves index\_composition and
  index\_performance as they were.
\<close>

theorem rebalance_index_total_iff:
  "((\<exists>s'. rebalance_index prices new_top_100 curr_index_value d s = Inr s') \<longleftrightarrow>
      new_top_100 \<noteq> [] \<and> (\<forall>t \<in> set new_top_100. \<exists>p. prices t = Some p \<and> p \<noteq> 0))
   \<and> rebalance_index prices [] curr_index_value d s = Inl ZeroDivisionError
   \<and> ((\<forall>u \<in> set pre. \<exists>p. prices u = Some p \<and> p \<noteq> 0) \<and> prices t = None \<longrightarrow>
        rebalance_index prices (pre @ t # post) curr_index_value d s = Inl KeyError)
   \<and> ((\<forall>u \<in> set pre. \<exists>p. prices u = Some p \<and> p \<noteq> 0) \<and> prices t = Some 0 \<longrightarrow>
        rebalance_index prices (pre @ t # post) curr_index_value d s = Inl ZeroDivisionError)
   \<and> (rebalance_index prices new_top_100 curr_index_value d s = Inl err \<longrightarrow>
        err = ZeroDivisionError \<or> err = KeyError)
   \<and> ((\<forall>r \<in> set (index_composition s). \<not> fst r < d) \<longrightarrow>
        dump_index_value prices (get_previous_top_100 d s) [] d s = Inl ZeroDivisionError)
   \<and> (is_trading_day e d
        \<and> fetch_closing_prices e (fetch_sp500_stocks e) d = Inr prices
        \<and> fetch_market_data prices (fetch_sp500_stocks e) d
              (if fetch_quarterly_results
               then fetch_and_store_all_quarterly_shares e (fetch_sp500_stocks e) s else s)
            = Inr market_data
        \<and> (\<forall>r \<in> set (market_caps (store_market_data market_data
              (if fetch_quarterly_results
               then fetch_and_store_all_quarterly_shares e (fetch_sp500_stocks e) s else s))).
            fst r \<noteq> d)
        \<and> (\<forall>r \<in> set (index_composition s). \<not> fst r < d) \<longrightarrow>
        fst (compute_index_value e d fetch_quarterly_results s) = Some ZeroDivisionError
        \<and> index_composition (snd (compute_index_value e d fetch_quarterly_results s))
            = index_composition s
        \<and> index_performance (snd (compute_index_value e d fetch_quarterly_results s))
            = index_performance s)"
proof -
  have "(\<exists>s'. rebalance_index prices new_top_100 curr_index_value d s = Inr s') \<longleftrightarrow>
      (\<exists>rows. index_composition_of prices new_top_100 curr_index_value d = Inr rows)"
    by (auto simp: rebalance_index_Inr)
  then have total: "(\<exists>s'. rebalance_index prices new_top_100 curr_index_value d s = Inr s') \<longleftrightarrow>
      new_top_100 \<noteq> [] \<and> (\<forall>t \<in> set new_top_100. \<exists>p. prices t = Some p \<and> p \<noteq> 0)"
    by (simp only: index_composition_of_Inr_iff)
  have empty: "rebalance_index prices [] curr_index_value d s = Inl ZeroDivisionError"
    by (rule rebalance_index_Nil)
  have missing: "(\<forall>u \<in> set pre. \<exists>p. prices u = Some p \<and> p \<noteq> 0) \<and> prices t = None \<longrightarrow>
        rebalance_index prices (pre @ t # post) curr_index_value d s = Inl KeyError"
    using rebalance_index_first_missing [of pre prices t post curr_index_value d s] by blast
  have zero: "(\<forall>u \<in> set pre. \<exists>p. prices u = Some p \<and> p \<noteq> 0) \<and> prices t = Some 0 \<longrightarrow>
        rebalance_index prices (pre @ t # post) curr_index_value d s = Inl ZeroDivisionError"
    using rebalance_index_first_zero [of pre prices t post curr_index_value d s] by blast
  have kinds: "rebalance_index prices new_top_100 curr_index_value d s = Inl err \<longrightarrow>
        err = ZeroDivisionError \<or> err = KeyError"
    using rebalance_index_error [of prices new_top_100 curr_index_value d s err] by blast
  have forced: "(\<forall>r \<in> set (index_composition s). \<not> fst r < d) \<longrightarrow>
        dump_index_value prices (get_previous_top_100 d s) [] d s = Inl ZeroDivisionError"
    using first_run_empty_top_100 [of s d prices] by blast
  have run: "is_trading_day e d
        \<and> fetch_closing_prices e (fetch_sp500_stocks e) d = Inr prices
        \<and> fetch_market_data prices (fetch_sp500_stocks e) d
              (if fetch_quarterly_results
               then fetch_and_store_all_quarterly_shares e (fetch_sp500_stocks e) s else s)
            = Inr market_data
        \<and> (\<forall>r \<in> set (market_caps (store_market_data market_data
              (if fetch_quarterly_results
               then fetch_and_store_all_quarterly_shares e (fetch_sp500_stocks e) s else s))).
            fst r \<noteq> d)
        \<and> (\<forall>r \<in> set (index_composition s). \<not> fst r < d) \<longrightarrow>
        fst (compute_index_value e d fetch_quarterly_results s) = Some ZeroDivisionError
        \<and> index_composition (snd (compute_index_value e d fetch_quarterly_results s))
            = index_composition s
        \<and> index_performance (snd (compute_index_value e d fetch_quarterly_results s))
            = index_performance s"
    using first_run_without_market_caps [of e d prices fetch_quarterly_results s market_data]
    by blast
  show ?thesis
    using total empty missing zero kinds forced run by (intro conjI)
qed

text \<open>
  The run of the example world for D1 on an empty database without the quarterly
  refresh: no shares are known, so no market cap is stored, the top-100 list is empty
  and the forced rebalance divides by zero. With prices for A only, the list A, C fails
  at C with KeyError.
\<close>

theorem rebalance_index_total_iff_witness:
  "(\<exists>s'. rebalance_index ex_prices_A [''A''] 10000 ''D1'' empty_db = Inr s')
   \<and> rebalance_index ex_prices_A ([''A''] @ ''C'' # []) 10000 ''D1'' empty_db = Inl KeyError
   \<and> rebalance_index ex_prices_zero ([] @ ''A'' # [''C'']) 10000 ''D1'' empty_db
       = Inl ZeroDivisionError
   \<and> dump_index_value ex_prices_A (get_previous_top_100 ''D1'' empty_db) [] ''D1'' empty_db
       = Inl ZeroDivisionError
   \<and> fst (compute_index_value ex_ext ''D1'' False empty_db) = Some ZeroDivisionError
   \<and> index_performance (snd (compute_index_value ex_ext ''D1'' False empty_db)) = []"
proof -
  have h1: "[''A''] \<noteq> [] \<and> (\<forall>t \<in> set [''A'']. \<exists>p. ex_prices_A t = Some p \<and> p \<noteq> 0)"
    by (simp add: ex_prices_A_def)
  have h2: "\<forall>r \<in> set (index_composition empty_db). \<not> fst r < ''D1''"
    by (simp add: empty_db_def)
  have h3: "(\<forall>u \<in> set [''A'']. \<exists>p. ex_prices_A u = Some p \<and> p \<noteq> 0) \<and> ex_prices_A ''C'' = None"
    by (simp add: ex_prices_A_def)
  have h4: "(\<forall>u \<in> set []. \<exists>p. ex_prices_zero u = Some p \<and> p \<noteq> 0) \<and> ex_prices_zero ''A'' = Some 0"
    by (simp add: ex_prices_zero_def)
  have a: "\<exists>s'. rebalance_index ex_prices_A [''A''] 10000 ''D1'' empty_db = Inr s'"
    using rebalance_index_total_iff [where prices = ex_prices_A
        and curr_index_value = 10000 and d = "''D1''" and s = empty_db] h1
    by blast
  have b: "rebalance_index ex_prices_A ([''A''] @ ''C'' # []) 10000 ''D1'' empty_db = Inl KeyError"
    using rebalance_index_total_iff [where prices = ex_prices_A and pre = "[''A'']"
        and t = "''C''" and post = "[]" and curr_index_value = 10000 and d = "''D1''"
        and s = empty_db] h3
    by blast
  have c: "rebalance_index ex_prices_zero ([] @ ''A'' # [''C'']) 10000 ''D1'' empty_db
       = Inl ZeroDivisionError"
    using rebalance_index_total_iff [where prices = ex_prices_zero and pre = "[]"
        and t = "''A''" and post = "[''C'']" and curr_index_value = 10000 and d = "''D1''"
        and s = empty_db] h4
    by blast
  have f: "dump_index_value ex_prices_A (get_previous_top_100 ''D1'' empty_db) [] ''D1'' empty_db
       = Inl ZeroDivisionError"
    using rebalance_index_total_iff [where prices = ex_prices_A and d = "''D1''"
        and s = empty_db] h2
    by blast
  have td: "is_trading_day ex_ext ''D1''"
    by (simp add: is_trading_day_def ex_ext_def)
  have p: "fetch_closing_prices ex_ext (fetch_sp500_stocks ex_ext) ''D1''
      = Inr (map_of [(''B-B'', 4), (''A'', 2)])"
    by (simp add: fetch_closing_prices_def yf_downloader_def fetch_sp500_stocks_def
        sub_tickers_list.simps yf_download_helper_def pd_concat_def ex_ext_def
        eval_nat_numeral)
  have m: "fetch_market_data (map_of [(''B-B'', 4), (''A'', 2)]) (fetch_sp500_stocks ex_ext) ''D1''
      (if False then fetch_and_store_all_quarterly_shares ex_ext (fetch_sp500_stocks ex_ext) empty_db
       else empty_db) = Inr []"
    by code_simp
  have caps: "\<forall>r \<in> set (market_caps (store_market_data []
      (if False then fetch_and_store_all_quarterly_shares ex_ext (fetch_sp500_stocks ex_ext) empty_db
       else empty_db))). fst r \<noteq> ''D1''"
    by (simp add: store_market_data_def executemany_def empty_db_def)
  have g: "fst (compute_index_value ex_ext ''D1'' False empty_db) = Some ZeroDivisionError
      \<and> index_performance (snd (compute_index_value ex_ext ''D1'' False empty_db))
          = index_performance empty_db"
    using rebalance_index_total_iff [where e = ex_ext and d = "''D1''"
        and prices = "map_of [(''B-B'', 4), (''A'', 2)]" and fetch_quarterly_results = False
        and s = empty_db and market_data = "[]"] td p m caps h2
    by blast
  from a b c f g show ?thesis by (simp add: empty_db_def)
qed

text \<open>
  The claim as stated fails: a list that is not empty and whose ticker has a price still
  raises ZeroDivisionError when that price is zero.
\<close>

theorem rebalance_index_total_counterexample:
  "[''A''] \<noteq> ([] :: ticker list)
   \<and> ex_prices_zero ''A'' = Some 0
   \<and> rebalance_index ex_prices_zero [''A''] 10000 ''D1'' empty_db = Inl ZeroDivisionError"
  by (simp add: rebalance_index_def index_composition_of_def ex_prices_zero_def)

end
